theory Spec2Isabelle
  imports Main "HOL-Library.Multiset" "HOL-Library.Product_Lexorder"
begin

section \<open>Python values, exceptions and decoded lines\<close>

text \<open>
  A Python \<open>str\<close> is a sequence of Unicode code points.  Dictionary keys of the
  source such as \<open>'date'\<close> are written \<open>str ''date''\<close>.
\<close>

type_synonym pystr = "nat list"

abbreviation (input) str :: "string \<Rightarrow> pystr" where
  "str s \<equiv> map of_char s"

text \<open>The exception classes that the three analyses can meet.\<close>

datatype exn =
    FileNotFoundError | JSONDecodeError | ValueError | KeyError
  | TypeError | AttributeError | IndexError

text \<open>
  The value \<open>json.loads\<close> returns: \<open>None\<close>, a \<open>bool\<close>, an \<open>int\<close>, a \<open>str\<close>, a
  \<open>list\<close> or a \<open>dict\<close> (floating-point numbers are left out).  A \<open>dict\<close> is kept as the
  list of its items in insertion order and read with \<open>map_of\<close>.
\<close>

datatype json =
    JNull | JBool bool | JInt int | JStr pystr
  | JArr "json list" | JObj "(pystr \<times> json) list"

text \<open>
  One line of the input file, as \<open>json.loads\<close> sees it: \<open>None\<close> when decoding the line
  raises \<open>JSONDecodeError\<close>, otherwise the decoded value.  A file is \<open>None\<close> when
  \<open>open\<close> raises \<open>FileNotFoundError\<close>, otherwise its lines in order.
\<close>

type_synonym line = "json option"
type_synonym pyfile = "line list option"

text \<open>Truth value testing (\<open>if x:\<close>, \<open>not x\<close>, \<open>x or y\<close>).\<close>

fun truthy :: "json \<Rightarrow> bool" where
  "truthy JNull = False"
| "truthy (JBool b) = b"
| "truthy (JInt i) = (i \<noteq> 0)"
| "truthy (JStr s) = (s \<noteq> [])"
| "truthy (JArr xs) = (xs \<noteq> [])"
| "truthy (JObj kvs) = (kvs \<noteq> [])"

definition py_or :: "json \<Rightarrow> json \<Rightarrow> json" where
  "py_or a b = (if truthy a then a else b)"

text \<open>\<open>d.get(k, default)\<close> on a \<open>dict\<close>.\<close>

definition dict_get :: "(pystr \<times> json) list \<Rightarrow> pystr \<Rightarrow> json \<Rightarrow> json" where
  "dict_get kvs k dflt = (case map_of kvs k of None \<Rightarrow> dflt | Some v \<Rightarrow> v)"

text \<open>
  Keys of a \<open>Counter\<close> are hashable values compared with \<open>==\<close>; \<open>True\<close> and \<open>1\<close>
  (\<open>False\<close> and \<open>0\<close>) are the same key.  Lists and dicts are unhashable: using one as
  a key raises \<open>TypeError\<close>.
\<close>

datatype pykey = KNone | KInt int | KStr pystr

fun hashable :: "json \<Rightarrow> pykey option" where
  "hashable JNull = Some KNone"
| "hashable (JBool b) = Some (KInt (if b then 1 else 0))"
| "hashable (JInt i) = Some (KInt i)"
| "hashable (JStr s) = Some (KStr s)"
| "hashable (JArr xs) = None"
| "hashable (JObj kvs) = None"

text \<open>
  \<open>for x in v\<close>: a list yields its elements, a \<open>str\<close> its characters, a \<open>dict\<close> its
  keys; anything else raises \<open>TypeError\<close>.
\<close>

fun py_iter :: "json \<Rightarrow> exn + json list" where
  "py_iter (JArr xs) = Inr xs"
| "py_iter (JStr s) = Inr (map (\<lambda>ch. JStr [ch]) s)"
| "py_iter (JObj kvs) = Inr (map (\<lambda>kv. JStr (fst kv)) kvs)"
| "py_iter v = Inl TypeError"

text \<open>
  \<open>try: body except (E1, ..., En): continue\<close>.  The body yields the exception it
  raised, if any, together with the state it had reached (mutations made before the
  raise persist).  A caught exception continues with that state, any other one
  leaves the function.
\<close>

definition try_except :: "exn list \<Rightarrow> exn option \<times> 's \<Rightarrow> exn + 's" where
  "try_except caught r =
     (case fst r of
        None \<Rightarrow> Inr (snd r)
      | Some e \<Rightarrow> if e \<in> set caught then Inr (snd r) else Inl e)"

section \<open>\<open>collections.Counter\<close>\<close>

text \<open>
  A \<open>Counter\<close> is a \<open>dict\<close>: its items in insertion order.  \<open>c[k] += 1\<close> increments an
  existing entry in place and appends a new key with count 1.
\<close>

type_synonym 'k counter = "('k \<times> nat) list"

fun incr :: "'k \<Rightarrow> 'k counter \<Rightarrow> 'k counter" where
  "incr k [] = [(k, 1)]"
| "incr k (kn # c) = (if fst kn = k then (fst kn, Suc (snd kn)) # c else kn # incr k c)"

text \<open>\<open>c.update(iterable)\<close> counts every element of the iterable, in order.\<close>

definition update :: "'k list \<Rightarrow> 'k counter \<Rightarrow> 'k counter" where
  "update ks c = foldl (\<lambda>c k. incr k c) c ks"

text \<open>\<open>c[k]\<close>: the count of a key, 0 when absent.\<close>

definition count_of :: "'k counter \<Rightarrow> 'k \<Rightarrow> nat" where
  "count_of c k = (case map_of c k of None \<Rightarrow> 0 | Some n \<Rightarrow> n)"

text \<open>
  \<open>c.most_common(n)\<close> is \<open>heapq.nlargest(n, c.items(), key=itemgetter(1))\<close>, that is
  \<open>sorted(c.items(), key=itemgetter(1), reverse=True)[:n]\<close>: a stable sort by
  descending count, truncated to \<open>n\<close> items.
\<close>

definition most_common :: "nat \<Rightarrow> 'k counter \<Rightarrow> ('k \<times> nat) list" where
  "most_common n c = take n (sort_key (\<lambda>kn. - int (snd kn)) c)"

text \<open>
  \<open>defaultdict(Counter)\<close>: \<open>m[d][u] += 1\<close> creates the nested counter of \<open>d\<close> on first
  use; \<open>m[d]\<close> alone reads it (an absent key reads as the empty counter), and
  evaluating \<open>m[d]\<close> for an absent key leaves an empty counter behind.
\<close>

type_synonym ('d, 'k) nested = "('d \<times> 'k counter) list"

fun nested_incr :: "'d \<Rightarrow> 'k \<Rightarrow> ('d, 'k) nested \<Rightarrow> ('d, 'k) nested" where
  "nested_incr d u [] = [(d, incr u [])]"
| "nested_incr d u (dc # m) =
     (if fst dc = d then (fst dc, incr u (snd dc)) # m else dc # nested_incr d u m)"

fun nested_touch :: "'d \<Rightarrow> ('d, 'k) nested \<Rightarrow> ('d, 'k) nested" where
  "nested_touch d [] = [(d, [])]"
| "nested_touch d (dc # m) = (if fst dc = d then dc # m else dc # nested_touch d m)"

definition nested_get :: "('d, 'k) nested \<Rightarrow> 'd \<Rightarrow> 'k counter" where
  "nested_get m d = (case map_of m d of None \<Rightarrow> [] | Some c \<Rightarrow> c)"

section \<open>\<open>q3_memory\<close>: the ten most mentioned users\<close>

text \<open>
  The inner loop \<open>for user in mentioned_users\<close>: an element that is a dict with a
  \<open>'username'\<close> key whose value is truthy is counted; an unhashable username raises
  \<open>TypeError\<close> from \<open>mention_counter[username] += 1\<close>, after the earlier mentions of
  the line were counted.
\<close>

fun q3_mentions :: "json list \<Rightarrow> pykey counter \<Rightarrow> exn option \<times> pykey counter" where
  "q3_mentions [] c = (None, c)"
| "q3_mentions (user # rest) c =
     (case user of
        JObj kvs \<Rightarrow>
          (case map_of kvs (str ''username'') of
             None \<Rightarrow> q3_mentions rest c
           | Some username \<Rightarrow>
               if truthy username then
                 (case hashable username of
                    None \<Rightarrow> (Some TypeError, c)
                  | Some k \<Rightarrow> q3_mentions rest (incr k c))
               else q3_mentions rest c)
      | _ \<Rightarrow> q3_mentions rest c)"

text \<open>The body of the \<open>try\<close> for one line.\<close>

definition q3_line :: "pykey counter \<Rightarrow> line \<Rightarrow> exn option \<times> pykey counter" where
  "q3_line c l =
     (case l of
        None \<Rightarrow> (Some JSONDecodeError, c)
      | Some tweet \<Rightarrow>
          (case tweet of
             JObj kvs \<Rightarrow>
               (let mentioned_users = dict_get kvs (str ''mentionedUsers'') (JArr []) in
                if truthy mentioned_users then
                  (case py_iter mentioned_users of
                     Inl e \<Rightarrow> (Some e, c)
                   | Inr users \<Rightarrow> q3_mentions users c)
                else (None, c))
           | _ \<Rightarrow> (Some AttributeError, c)))"

fun q3_loop :: "line list \<Rightarrow> pykey counter \<Rightarrow> exn + pykey counter" where
  "q3_loop [] c = Inr c"
| "q3_loop (l # ls) c =
     (case try_except [JSONDecodeError, KeyError, TypeError] (q3_line c l) of
        Inl e \<Rightarrow> Inl e
      | Inr c' \<Rightarrow> q3_loop ls c')"

definition q3_memory :: "pyfile \<Rightarrow> exn + (pykey \<times> nat) list" where
  "q3_memory file =
     (case file of
        None \<Rightarrow> Inl FileNotFoundError
      | Some lines \<Rightarrow>
          (case q3_loop lines [] of
             Inl e \<Rightarrow> Inl e
           | Inr mention_counter \<Rightarrow> Inr (most_common 10 mention_counter)))"

section \<open>\<open>q2_memory\<close>: the ten most used emojis\<close>

text \<open>
  \<open>EMOJI_PATTERN\<close> is
  \<open>[\p{Emoji_Presentation}\p{Extended_Pictographic}](?:\uFE0F)?(?:\u200d[...]\uFE0F?)*\<close>.
  The Unicode property tables are not part of the repository: the character class
  is the parameter \<open>P\<close>.  Every quantifier is greedy and nothing follows the last
  one, so a match never backtracks.
\<close>

text \<open>Code points consumed by \<open>(?:\u200d[...]\uFE0F?)*\<close> at the head of a string.\<close>

fun zwj_run :: "(nat \<Rightarrow> bool) \<Rightarrow> pystr \<Rightarrow> nat" where
  "zwj_run P (z # c # v # r) =
     (if z = 0x200D \<and> P c
      then (if v = 0xFE0F then 3 + zwj_run P r else 2 + zwj_run P (v # r))
      else 0)"
| "zwj_run P [z, c] = (if z = 0x200D \<and> P c then 2 else 0)"
| "zwj_run P r = 0"

text \<open>Length of the match that starts at the head of a string whose head is in the class.\<close>

fun emoji_len :: "(nat \<Rightarrow> bool) \<Rightarrow> pystr \<Rightarrow> nat" where
  "emoji_len P [] = 0"
| "emoji_len P [c] = 1"
| "emoji_len P (c # v # r) =
     (if v = 0xFE0F then 2 + zwj_run P r else 1 + zwj_run P (v # r))"

text \<open>
  \<open>EMOJI_PATTERN.findall(content)\<close>: the non-overlapping matches from left to right;
  \<open>k\<close> counts the code points still covered by the previous match.
\<close>

fun findall_from :: "(nat \<Rightarrow> bool) \<Rightarrow> nat \<Rightarrow> pystr \<Rightarrow> pystr list" where
  "findall_from P k [] = []"
| "findall_from P k (c # r) =
     (if 0 < k then findall_from P (k - 1) r
      else if P c then
        take (emoji_len P (c # r)) (c # r) # findall_from P (emoji_len P (c # r) - 1) r
      else findall_from P 0 r)"

definition findall :: "(nat \<Rightarrow> bool) \<Rightarrow> pystr \<Rightarrow> pystr list" where
  "findall P content = findall_from P 0 content"

text \<open>
  The body of the \<open>try\<close> for one line.  \<open>findall\<close> on a value that is not a \<open>str\<close>
  raises \<open>TypeError\<close>.
\<close>

definition q2_line :: "(nat \<Rightarrow> bool) \<Rightarrow> pystr counter \<Rightarrow> line \<Rightarrow> exn option \<times> pystr counter" where
  "q2_line P c l =
     (case l of
        None \<Rightarrow> (Some JSONDecodeError, c)
      | Some tweet \<Rightarrow>
          (case tweet of
             JObj kvs \<Rightarrow>
               (let content = py_or (dict_get kvs (str ''content'') (JStr []))
                                    (dict_get kvs (str ''renderedContent'') (JStr [])) in
                if truthy content then
                  (case content of
                     JStr s \<Rightarrow> (None, update (findall P s) c)
                   | _ \<Rightarrow> (Some TypeError, c))
                else (None, c))
           | _ \<Rightarrow> (Some AttributeError, c)))"

fun q2_loop :: "(nat \<Rightarrow> bool) \<Rightarrow> line list \<Rightarrow> pystr counter \<Rightarrow> exn + pystr counter" where
  "q2_loop P [] c = Inr c"
| "q2_loop P (l # ls) c =
     (case try_except [JSONDecodeError, KeyError] (q2_line P c l) of
        Inl e \<Rightarrow> Inl e
      | Inr c' \<Rightarrow> q2_loop P ls c')"

definition q2_memory :: "(nat \<Rightarrow> bool) \<Rightarrow> pyfile \<Rightarrow> exn + (pystr \<times> nat) list" where
  "q2_memory P file =
     (case file of
        None \<Rightarrow> Inl FileNotFoundError
      | Some lines \<Rightarrow>
          (case q2_loop P lines [] of
             Inl e \<Rightarrow> Inl e
           | Inr emoji_counter \<Rightarrow> Inr (most_common 10 emoji_counter)))"

section \<open>\<open>q1_memory\<close>: the ten busiest dates and their most active user\<close>

text \<open>\<open>date_str.replace('Z', '+00:00')\<close>.\<close>

definition replace_Z :: "pystr \<Rightarrow> pystr" where
  "replace_Z s = concat (map (\<lambda>ch. if ch = of_char CHR ''Z'' then str ''+00:00'' else [ch]) s)"

text \<open>The two aggregation tables \<open>date_counts\<close> and \<open>date_user_counts\<close>.\<close>

type_synonym 'd q1_state = "'d counter \<times> ('d, pykey) nested"

text \<open>
  The body of the \<open>try\<close> for one line.  \<open>datetime.fromisoformat(...).date()\<close> is the
  parameter \<open>fromisoformat\<close>: \<open>None\<close> when it raises \<open>ValueError\<close>, the date otherwise.
  A truthy \<open>date\<close> that is not a \<open>str\<close> has no \<open>replace\<close>, a \<open>user\<close> that is not a dict
  has no \<open>get\<close>: both raise \<open>AttributeError\<close>.  An unhashable username raises
  \<open>TypeError\<close> after \<open>date_counts\<close> was incremented.
\<close>

definition q1_line :: "(pystr \<Rightarrow> 'd option) \<Rightarrow> 'd q1_state \<Rightarrow> line \<Rightarrow> exn option \<times> 'd q1_state" where
  "q1_line fromisoformat st l =
     (case l of
        None \<Rightarrow> (Some JSONDecodeError, st)
      | Some tweet \<Rightarrow>
          (case tweet of
             JObj kvs \<Rightarrow>
               (let date_str = dict_get kvs (str ''date'') (JStr []) in
                if \<not> truthy date_str then (None, st)
                else
                  (case date_str of
                     JStr s \<Rightarrow>
                       (case fromisoformat (replace_Z s) of
                          None \<Rightarrow> (Some ValueError, st)
                        | Some date_obj \<Rightarrow>
                            (case dict_get kvs (str ''user'') (JObj []) of
                               JObj ukvs \<Rightarrow>
                                 (let username = dict_get ukvs (str ''username'') (JStr []) in
                                  if \<not> truthy username then (None, st)
                                  else
                                    (case hashable username of
                                       None \<Rightarrow>
                                         (Some TypeError,
                                          (incr date_obj (fst st), nested_touch date_obj (snd st)))
                                     | Some u \<Rightarrow>
                                         (None,
                                          (incr date_obj (fst st),
                                           nested_incr date_obj u (snd st)))))
                             | _ \<Rightarrow> (Some AttributeError, st)))
                   | _ \<Rightarrow> (Some AttributeError, st)))
           | _ \<Rightarrow> (Some AttributeError, st)))"

fun q1_loop :: "(pystr \<Rightarrow> 'd option) \<Rightarrow> line list \<Rightarrow> 'd q1_state \<Rightarrow> exn + 'd q1_state" where
  "q1_loop f [] st = Inr st"
| "q1_loop f (l # ls) st =
     (case try_except [JSONDecodeError, ValueError, KeyError] (q1_line f st l) of
        Inl e \<Rightarrow> Inl e
      | Inr st' \<Rightarrow> q1_loop f ls st')"

text \<open>
  The final loop: \<open>date_user_counts[date_obj].most_common(1)[0][0]\<close> raises
  \<open>IndexError\<close> when the nested counter is empty.
\<close>

fun top_users :: "('d, 'k) nested \<Rightarrow> 'd list \<Rightarrow> exn + ('d \<times> 'k) list" where
  "top_users m [] = Inr []"
| "top_users m (date_obj # ds) =
     (case most_common 1 (nested_get m date_obj) of
        [] \<Rightarrow> Inl IndexError
      | item # _ \<Rightarrow>
          (case top_users m ds of
             Inl e \<Rightarrow> Inl e
           | Inr result \<Rightarrow> Inr ((date_obj, fst item) # result)))"

definition q1_memory :: "(pystr \<Rightarrow> 'd option) \<Rightarrow> pyfile \<Rightarrow> exn + ('d \<times> pykey) list" where
  "q1_memory f file =
     (case file of
        None \<Rightarrow> Inl FileNotFoundError
      | Some lines \<Rightarrow>
          (case q1_loop f lines ([], []) of
             Inl e \<Rightarrow> Inl e
           | Inr st \<Rightarrow> top_users (snd st) (map fst (most_common 10 (fst st)))))"

section \<open>\<open>q1_time\<close>: the SQL query\<close>

text \<open>
  \<open>q1_time\<close> hands one SQL query to DuckDB.  The model starts from the rows of the
  common table expression \<open>parsed\<close> in file order (reading the file and the two
  column expressions are DuckDB's): a nullable date and a nullable username.
  SQL leaves the order among rows with equal sort keys open; the model keeps such rows
  in first-seen order.
\<close>

text \<open>Position of the first occurrence of an element (the length when absent).\<close>

fun first_index :: "'a list \<Rightarrow> 'a \<Rightarrow> nat" where
  "first_index [] x = 0"
| "first_index (y # ys) x = (if x = y then 0 else Suc (first_index ys x))"

text \<open>\<open>SELECT date, COUNT ... GROUP BY date ORDER BY total_tweets DESC LIMIT 10\<close>.\<close>

definition date_counts :: "('d option \<times> 'u) list \<Rightarrow> ('d option \<times> nat) list" where
  "date_counts parsed = take 10 (sort_key (\<lambda>r. - int (snd r)) (update (map fst parsed) []))"

text \<open>
  \<open>FROM parsed p INNER JOIN date_counts dc ON p.date = dc.date\<close>: a row with a NULL
  date joins nothing.
\<close>

definition joined :: "('d option \<times> 'u) list \<Rightarrow> ('d \<times> 'u) list" where
  "joined parsed =
     concat (map (\<lambda>p. case fst p of
                         None \<Rightarrow> []
                       | Some d \<Rightarrow> if Some d \<in> set (map fst (date_counts parsed))
                                   then [(d, snd p)] else [])
                 parsed)"

text \<open>
  \<open>GROUP BY p.date, p.username\<close> with the row count of each group and
  \<open>ROW_NUMBER() OVER (PARTITION BY p.date ORDER BY count DESC)\<close>: a row of
  \<open>user_counts\<close> is \<open>((date, username), user_tweets, rank)\<close>.
\<close>

definition row_number :: "(('d \<times> 'u) \<times> nat) list \<Rightarrow> ('d \<times> 'u) \<times> nat \<Rightarrow> nat" where
  "row_number grouped g =
     Suc (first_index
            (sort_key (\<lambda>r. - int (snd r)) (filter (\<lambda>r. fst (fst r) = fst (fst g)) grouped))
            g)"

definition user_counts :: "('d option \<times> 'u) list \<Rightarrow> (('d \<times> 'u) \<times> nat \<times> nat) list" where
  "user_counts parsed =
     (let grouped = update (joined parsed) []
      in map (\<lambda>g. (fst g, snd g, row_number grouped g)) grouped)"

text \<open>
  \<open>SELECT date, username FROM user_counts WHERE rank = 1 ORDER BY date DESC\<close>.
  There is one row of rank 1 for each date, so the descending order has no ties.
\<close>

definition q1_time :: "(('d::linorder) option \<times> 'u) list \<Rightarrow> ('d \<times> 'u) list" where
  "q1_time parsed =
     map fst (rev (sort_key (\<lambda>r. fst (fst r))
                            (filter (\<lambda>r. snd (snd r) = 1) (user_counts parsed))))"

section \<open>Key extractors and observation streams\<close>

text \<open>
  The keys that one line contributes, read off the loop bodies above, and the
  stream of all observations of a file in input order.  The claims about first
  occurrences, distinct keys and totals are stated over these streams.
\<close>

fun q3_user_keys :: "json list \<Rightarrow> pykey list" where
  "q3_user_keys [] = []"
| "q3_user_keys (user # rest) =
     (case user of
        JObj kvs \<Rightarrow>
          (case map_of kvs (str ''username'') of
             None \<Rightarrow> q3_user_keys rest
           | Some username \<Rightarrow>
               if truthy username then
                 (case hashable username of
                    None \<Rightarrow> []
                  | Some k \<Rightarrow> k # q3_user_keys rest)
               else q3_user_keys rest)
      | _ \<Rightarrow> q3_user_keys rest)"

definition q3_line_keys :: "line \<Rightarrow> pykey list" where
  "q3_line_keys l =
     (case l of
        Some (JObj kvs) \<Rightarrow>
          (let mentioned_users = dict_get kvs (str ''mentionedUsers'') (JArr []) in
           if truthy mentioned_users then
             (case py_iter mentioned_users of Inl e \<Rightarrow> [] | Inr users \<Rightarrow> q3_user_keys users)
           else [])
      | _ \<Rightarrow> [])"

definition q3_keys :: "line list \<Rightarrow> pykey list" where
  "q3_keys ls = concat (map q3_line_keys ls)"

definition q2_line_keys :: "(nat \<Rightarrow> bool) \<Rightarrow> line \<Rightarrow> pystr list" where
  "q2_line_keys P l =
     (case l of
        Some (JObj kvs) \<Rightarrow>
          (case py_or (dict_get kvs (str ''content'') (JStr []))
                      (dict_get kvs (str ''renderedContent'') (JStr [])) of
             JStr s \<Rightarrow> findall P s
           | _ \<Rightarrow> [])
      | _ \<Rightarrow> [])"

definition q2_keys :: "(nat \<Rightarrow> bool) \<Rightarrow> line list \<Rightarrow> pystr list" where
  "q2_keys P ls = concat (map (q2_line_keys P) ls)"

definition q1_line_key :: "(pystr \<Rightarrow> 'd option) \<Rightarrow> line \<Rightarrow> ('d \<times> pykey) option" where
  "q1_line_key f l =
     (case l of
        Some (JObj kvs) \<Rightarrow>
          (case dict_get kvs (str ''date'') (JStr []) of
             JStr s \<Rightarrow>
               if s = [] then None
               else
                 (case f (replace_Z s) of
                    None \<Rightarrow> None
                  | Some d \<Rightarrow>
                      (case dict_get kvs (str ''user'') (JObj []) of
                         JObj ukvs \<Rightarrow>
                           (let username = dict_get ukvs (str ''username'') (JStr []) in
                            if truthy username
                            then map_option (Pair d) (hashable username)
                            else None)
                       | _ \<Rightarrow> None))
           | _ \<Rightarrow> None)
      | _ \<Rightarrow> None)"

definition q1_keys :: "(pystr \<Rightarrow> 'd option) \<Rightarrow> line list \<Rightarrow> ('d \<times> pykey) list" where
  "q1_keys f ls = List.map_filter (q1_line_key f) ls"

text \<open>The observations of the nested table, in order.\<close>

definition nested_update :: "('d \<times> 'k) list \<Rightarrow> ('d, 'k) nested \<Rightarrow> ('d, 'k) nested" where
  "nested_update obs m = foldl (\<lambda>m du. nested_incr (fst du) (snd du) m) m obs"

text \<open>The authors observed on a date, in order.\<close>

definition authors_on :: "'d \<Rightarrow> ('d \<times> 'k) list \<Rightarrow> 'k list" where
  "authors_on d obs = map snd (filter (\<lambda>du. fst du = d) obs)"

section \<open>A date parser for the worked examples\<close>

text \<open>
  The theorems below hold for every \<open>fromisoformat\<close>.  The worked examples use this
  instance, which reads the calendar date \<open>YYYY-MM-DD\<close> at the head of a string as
  (year, month, day) and rejects a string that does not start with one.
\<close>

fun digit_val :: "nat \<Rightarrow> nat option" where
  "digit_val c = (if 48 \<le> c \<and> c \<le> 57 then Some (c - 48) else None)"

fun example_fromisoformat :: "pystr \<Rightarrow> (nat \<times> nat \<times> nat) option" where
  "example_fromisoformat (y1 # y2 # y3 # y4 # h1 # m1 # m2 # h2 # d1 # d2 # rest) =
     (case map digit_val [y1, y2, y3, y4, m1, m2, d1, d2] of
        [Some a, Some b, Some c, Some d, Some e, Some f, Some g, Some h] \<Rightarrow>
          if h1 = 45 \<and> h2 = 45 \<and> 1 \<le> 10 * e + f \<and> 10 * e + f \<le> 12
             \<and> 1 \<le> 10 * g + h \<and> 10 * g + h \<le> 31
          then Some (1000 * a + 100 * b + 10 * c + d, 10 * e + f, 10 * g + h)
          else None
      | _ \<Rightarrow> None)"
| "example_fromisoformat s = None"

section \<open>Example lines\<close>

text \<open>Lines as the dataset has them, for the worked examples.\<close>

definition example_tweet :: "string \<Rightarrow> string \<Rightarrow> line" where
  "example_tweet date username =
     Some (JObj [(str ''date'', JStr (str date)),
                 (str ''user'', JObj [(str ''username'', JStr (str username))])])"

definition example_mentions :: "string list \<Rightarrow> line" where
  "example_mentions usernames =
     Some (JObj [(str ''mentionedUsers'',
                  JArr (map (\<lambda>u. JObj [(str ''username'', JStr (str u))]) usernames))])"

definition example_content :: "pystr \<Rightarrow> line" where
  "example_content s = Some (JObj [(str ''content'', JStr s)])"

section \<open>Ranking order\<close>

text \<open>
  The order in which \<open>most_common\<close> lists two keys of a counter: the larger count
  first, and of two equal counts the key inserted first.
\<close>

definition ranks_before :: "'k counter \<Rightarrow> 'k \<Rightarrow> 'k \<Rightarrow> bool" where
  "ranks_before c a b \<longleftrightarrow>
     count_of c b < count_of c a
     \<or> (count_of c a = count_of c b
        \<and> first_index (map fst c) a < first_index (map fst c) b)"

text \<open>
  Eleven mentioned users: \<open>k\<close> is seen first and once, \<open>a\<close> to \<open>i\<close> twice each,
  \<open>t\<close> last and twice.
\<close>

definition example_eleven_users :: "line list" where
  "example_eleven_users =
     [example_mentions [''k''],
      example_mentions [''a'', ''b'', ''c'', ''d'', ''e'', ''f'', ''g'', ''h'', ''i''],
      example_mentions [''a'', ''b'', ''c'', ''d'', ''e'', ''f'', ''g'', ''h'', ''i''],
      example_mentions [''t'', ''t'']]"

section \<open>Counters and loops: basic facts\<close>

lemma incr_keys:
  "map fst (incr k c) = (if k \<in> set (map fst c) then map fst c else map fst c @ [k])"
  by (induction c) auto

lemma incr_sum: "sum_list (map snd (incr k c)) = Suc (sum_list (map snd c))"
  by (induction c) auto

lemma count_of_incr:
  "count_of (incr k c) k' = (if k' = k then Suc (count_of c k) else count_of c k')"
  by (induction c) (auto simp: count_of_def)

lemma update_Nil: "update [] c = c"
  by (simp add: update_def)

lemma update_Cons: "update (k # ks) c = update ks (incr k c)"
  by (simp add: update_def)

lemma update_snoc: "update (ks @ [k]) c = incr k (update ks c)"
  by (simp add: update_def)

lemma update_append: "update (ks @ ks') c = update ks' (update ks c)"
  by (simp add: update_def)

lemma incr_keys_set: "fst ` set (incr k c) = insert k (fst ` set c)"
  using arg_cong [OF incr_keys [of k c], of set] by (auto simp del: incr.simps)

lemma update_keys_set: "fst ` set (update ks c) = fst ` set c \<union> set ks"
  by (induction ks arbitrary: c) (simp_all add: update_Nil update_Cons incr_keys_set)

lemma incr_distinct: "distinct (map fst c) \<Longrightarrow> distinct (map fst (incr k c))"
  by (simp add: incr_keys)

lemma update_distinct: "distinct (map fst c) \<Longrightarrow> distinct (map fst (update ks c))"
  by (induction ks arbitrary: c) (auto simp: update_Nil update_Cons incr_distinct)

lemma count_of_update: "count_of (update ks c) k = count_of c k + count_list ks k"
  by (induction ks arbitrary: c) (auto simp: update_Nil update_Cons count_of_incr)

lemma update_sum: "sum_list (map snd (update ks c)) = sum_list (map snd c) + length ks"
  by (induction ks arbitrary: c) (auto simp: update_Nil update_Cons incr_sum)

lemma update_length: "length (update ks []) = card (set ks)"
proof -
  have "distinct (map fst (update ks []))" by (simp add: update_distinct)
  then have "card (set (map fst (update ks []))) = length (map fst (update ks []))"
    by (rule distinct_card)
  then show ?thesis using update_keys_set [of ks "[]"] by simp
qed

lemma count_of_in: "distinct (map fst c) \<Longrightarrow> (k, n) \<in> set c \<Longrightarrow> count_of c k = n"
  by (simp add: count_of_def)

lemma count_of_notin: "k \<notin> fst ` set c \<Longrightarrow> count_of c k = 0"
  using map_of_eq_None_iff [of c k] by (simp add: count_of_def)

lemma update_item_count:
  "(k, n) \<in> set (update ks []) \<Longrightarrow> n = count_list ks k"
  using count_of_in [OF update_distinct [of "[]" ks], of k n] count_of_update [of ks "[]" k]
  by (simp add: count_of_def)

lemma most_common_length: "length (most_common n c) = min n (length c)"
  by (simp add: most_common_def min.commute)

lemma most_common_set: "set (most_common n c) \<subseteq> set c"
  unfolding most_common_def using set_take_subset [of n "sort_key (\<lambda>kn. - int (snd kn)) c"] by simp

lemma most_common_sorted:
  "sorted_wrt (\<lambda>a b. snd b \<le> snd a) (most_common n c)"
proof -
  have "sorted (map (\<lambda>kn. - int (snd kn)) (sort_key (\<lambda>kn. - int (snd kn)) c))"
    by (rule sorted_sort_key)
  then have "sorted_wrt (\<lambda>a b. snd b \<le> snd a) (sort_key (\<lambda>kn. - int (snd kn)) c)"
    by (simp add: sorted_wrt_map)
  then show ?thesis
    unfolding most_common_def by (rule sorted_wrt_take)
qed


lemma try_except_state: "try_except caught r = Inr s \<Longrightarrow> s = snd r"
  by (auto simp: try_except_def split: option.splits if_splits)

lemma q3_mentions_keys: "snd (q3_mentions users c) = update (q3_user_keys users) c"
  by (induction users arbitrary: c)
     (auto simp: update_Nil update_Cons split: json.splits option.splits)

lemma q3_line_state: "snd (q3_line c l) = update (q3_line_keys l) c"
  by (auto simp: q3_line_def q3_line_keys_def Let_def update_Nil q3_mentions_keys
           split: option.splits json.splits sum.splits)

lemma q3_loop_keys: "q3_loop ls c = Inr c' \<Longrightarrow> c' = update (q3_keys ls) c"
proof (induction ls arbitrary: c)
  case Nil
  then show ?case by (simp add: q3_keys_def update_Nil)
next
  case (Cons l ls)
  from Cons.prems obtain c1
    where s: "try_except [JSONDecodeError, KeyError, TypeError] (q3_line c l) = Inr c1"
      and r: "q3_loop ls c1 = Inr c'"
    by (auto split: sum.splits)
  from s have "c1 = update (q3_line_keys l) c"
    using try_except_state q3_line_state by metis
  with Cons.IH [OF r] show ?case
    by (simp add: q3_keys_def update_append)
qed

lemma q2_line_state: "snd (q2_line P c l) = update (q2_line_keys P l) c"
  by (auto simp: q2_line_def q2_line_keys_def Let_def update_Nil findall_def
           split: option.splits json.splits)

lemma q2_loop_keys: "q2_loop P ls c = Inr c' \<Longrightarrow> c' = update (q2_keys P ls) c"
proof (induction ls arbitrary: c)
  case Nil
  then show ?case by (simp add: q2_keys_def update_Nil)
next
  case (Cons l ls)
  from Cons.prems obtain c1
    where s: "try_except [JSONDecodeError, KeyError] (q2_line P c l) = Inr c1"
      and r: "q2_loop P ls c1 = Inr c'"
    by (auto split: sum.splits)
  from s have "c1 = update (q2_line_keys P l) c"
    using try_except_state q2_line_state by metis
  with Cons.IH [OF r] show ?case
    by (simp add: q2_keys_def update_append)
qed

lemma q1_line_state:
  "try_except [JSONDecodeError, ValueError, KeyError] (q1_line f st l) = Inr st' \<Longrightarrow>
   st' = (case q1_line_key f l of
            None \<Rightarrow> st
          | Some du \<Rightarrow> (incr (fst du) (fst st), nested_incr (fst du) (snd du) (snd st)))"
  unfolding q1_line_def q1_line_key_def try_except_def Let_def
  by (auto split: option.splits json.splits if_splits)

lemma nested_update_Nil: "nested_update [] m = m"
  by (simp add: nested_update_def)

lemma nested_update_Cons:
  "nested_update (du # obs) m = nested_update obs (nested_incr (fst du) (snd du) m)"
  by (simp add: nested_update_def)

lemma q1_keys_Nil: "q1_keys f [] = []"
  by (simp add: q1_keys_def map_filter_simps)

lemma q1_keys_Cons:
  "q1_keys f (l # ls) = (case q1_line_key f l of None \<Rightarrow> q1_keys f ls | Some du \<Rightarrow> du # q1_keys f ls)"
  by (simp add: q1_keys_def map_filter_simps split: option.splits)

lemma q1_loop_keys:
  "q1_loop f ls st = Inr st' \<Longrightarrow>
   st' = (update (map fst (q1_keys f ls)) (fst st), nested_update (q1_keys f ls) (snd st))"
proof (induction ls arbitrary: st)
  case Nil
  then show ?case by (simp add: q1_keys_Nil update_Nil nested_update_Nil)
next
  case (Cons l ls)
  from Cons.prems obtain st1
    where s: "try_except [JSONDecodeError, ValueError, KeyError] (q1_line f st l) = Inr st1"
      and r: "q1_loop f ls st1 = Inr st'"
    by (auto split: sum.splits)
  note q1_line_state [OF s]
  with Cons.IH [OF r] show ?case
    by (simp add: q1_keys_Cons update_Cons nested_update_Cons split: option.splits)
qed

lemma nested_get_incr:
  "nested_get (nested_incr d u m) d' = (if d' = d then incr u (nested_get m d) else nested_get m d')"
  by (induction m) (auto simp: nested_get_def)

lemma authors_on_Nil: "authors_on d [] = []"
  by (simp add: authors_on_def)

lemma authors_on_Cons:
  "authors_on d (du # obs) = (if fst du = d then snd du # authors_on d obs else authors_on d obs)"
  by (simp add: authors_on_def)

lemma nested_get_update:
  "nested_get (nested_update obs m) d = update (authors_on d obs) (nested_get m d)"
  by (induction obs arbitrary: m)
     (simp_all add: nested_update_Nil nested_update_Cons authors_on_Nil authors_on_Cons
        update_Nil update_Cons nested_get_incr)

lemma length_q1_keys:
  "length (q1_keys f ls) = length (filter (\<lambda>l. q1_line_key f l \<noteq> None) ls)"
  by (induction ls) (auto simp: q1_keys_Nil q1_keys_Cons split: option.splits)

lemma length_concat_keys:
  "length (concat (map g ls)) = sum_list (map (\<lambda>l. length (g l)) ls)"
  by (induction ls) auto

lemma q1_loop_append:
  "q1_loop f (ls @ ls') st = Inr final \<Longrightarrow>
   \<exists>st1. q1_loop f ls st = Inr st1 \<and> q1_loop f ls' st1 = Inr final"
  by (induction ls arbitrary: st) (auto split: sum.splits)

lemma length_authors_on: "length (authors_on d obs) = count_list (map fst obs) d"
  by (induction obs) (auto simp: authors_on_Nil authors_on_Cons)

lemma count_authors_on: "count_list (authors_on d obs) a = count_list obs (d, a)"
  by (induction obs) (auto simp: authors_on_Nil authors_on_Cons prod_eq_iff)

lemma nested_get_Nil: "nested_get [] d = []"
  by (simp add: nested_get_def)

lemma count_of_Nil: "count_of [] k = 0"
  by (simp add: count_of_def)

lemma q1_state_invariant:
  "q1_loop f ls ([], []) = Inr st \<Longrightarrow>
   sum_list (map snd (nested_get (snd st) d)) = count_of (fst st) d"
  using q1_loop_keys [of f ls "([], [])" st]
  by (simp add: nested_get_update update_sum nested_get_Nil count_of_update count_of_Nil
      length_authors_on)

lemma most_common_Nil_iff: "0 < n \<Longrightarrow> most_common n c = [] \<longleftrightarrow> c = []"
  using most_common_length [of n c] by (cases c) auto

lemma update_Nil_iff: "update ks c = [] \<longleftrightarrow> ks = [] \<and> c = []"
proof (induction ks arbitrary: c)
  case Nil
  then show ?case by (simp add: update_Nil)
next
  case (Cons k ks)
  have "incr k c \<noteq> []" by (cases c) auto
  with Cons show ?case by (simp add: update_Cons)
qed

lemma top_users_Inl:
  "top_users m ds = Inl e \<Longrightarrow> \<exists>d \<in> set ds. nested_get m d = []"
proof (induction ds)
  case Nil
  then show ?case by simp
next
  case (Cons d ds)
  show ?case
  proof (cases "most_common 1 (nested_get m d)")
    case Nil
    then have "nested_get m d = []"
      using most_common_Nil_iff [of 1 "nested_get m d"] by simp
    then show ?thesis by simp
  next
    case (Cons item rest)
    with Cons.prems have "top_users m ds = Inl e" by (auto split: sum.splits)
    with Cons.IH show ?thesis by auto
  qed
qed

lemma top_users_Inr:
  "top_users m ds = Inr r \<Longrightarrow>
   map fst r = ds \<and> (\<forall>da \<in> set r.
      most_common 1 (nested_get m (fst da)) \<noteq> []
      \<and> snd da = fst (hd (most_common 1 (nested_get m (fst da)))))"
proof (induction ds arbitrary: r)
  case Nil
  then show ?case by simp
next
  case (Cons d ds)
  from Cons.prems obtain item rest r'
    where mc: "most_common 1 (nested_get m d) = item # rest"
      and rec: "top_users m ds = Inr r'" and r: "r = (d, fst item) # r'"
    by (auto split: list.splits sum.splits)
  from Cons.IH [OF rec] mc r show ?case by auto
qed

lemma q1_nested_nonempty:
  assumes "q1_loop f ls ([], []) = Inr st" and "d \<in> fst ` set (fst st)"
  shows "nested_get (snd st) d \<noteq> []"
proof -
  note st = q1_loop_keys [OF assms(1)]
  from assms(2) st have "d \<in> set (map fst (q1_keys f ls))"
    using update_keys_set [of "map fst (q1_keys f ls)" "[]"] by simp
  then have "count_list (map fst (q1_keys f ls)) d \<noteq> 0"
    by (simp add: count_list_0_iff)
  then have "authors_on d (q1_keys f ls) \<noteq> []"
    using length_authors_on [of d "q1_keys f ls"] by auto
  with st show ?thesis
    by (simp add: nested_get_update update_Nil_iff)
qed

lemma q1_line_exn: "fst (q1_line f st l) \<noteq> Some IndexError"
  unfolding q1_line_def Let_def
  by (auto split: option.splits json.splits)

lemma q1_loop_exn: "q1_loop f ls st \<noteq> Inl IndexError"
proof (induction ls arbitrary: st)
  case Nil
  then show ?case by simp
next
  case (Cons l ls)
  have "try_except [JSONDecodeError, ValueError, KeyError] (q1_line f st l) \<noteq> Inl IndexError"
    using q1_line_exn [of f st l] by (auto simp: try_except_def split: option.splits)
  with Cons.IH show ?case by (auto split: sum.splits)
qed

lemma q1_memory_returns:
  assumes "q1_loop f ls ([], []) = Inr st"
  shows "\<exists>r. q1_memory f (Some ls) = Inr r"
proof (cases "top_users (snd st) (map fst (most_common 10 (fst st)))")
  case (Inl e)
  from top_users_Inl [OF Inl] obtain d
    where d: "d \<in> set (map fst (most_common 10 (fst st)))" and e: "nested_get (snd st) d = []"
    by blast
  from d most_common_set [of 10 "fst st"] have "d \<in> fst ` set (fst st)" by auto
  from q1_nested_nonempty [OF assms this] e show ?thesis by simp
next
  case (Inr r)
  with assms show ?thesis by (simp add: q1_memory_def)
qed

lemma hd_sort_key_le:
  assumes "y \<in> set xs"
  shows "g (hd (sort_key g xs)) \<le> g y"
proof (cases "sort_key g xs")
  case Nil
  with assms show ?thesis using set_sort [of g xs] by simp
next
  case (Cons x s)
  have "sorted (map g (sort_key g xs))" by (rule sorted_sort_key)
  with Cons have "\<forall>z \<in> set (x # s). g x \<le> g z" by auto
  moreover from assms Cons have "y \<in> set (x # s)" using set_sort [of g xs] by simp
  ultimately show ?thesis using Cons by auto
qed

lemma most_common_hd:
  assumes "0 < n" and "kn \<in> set c"
  shows "most_common n c \<noteq> []" and "hd (most_common n c) \<in> set c"
    and "snd kn \<le> snd (hd (most_common n c))"
proof -
  let ?s = "sort_key (\<lambda>kn. - int (snd kn)) c"
  have ne: "?s \<noteq> []"
    by (metis assms(2) set_sort empty_iff empty_set)
  with assms(1) show "most_common n c \<noteq> []" by (simp add: most_common_def)
  from ne assms(1) have hd: "hd (most_common n c) = hd ?s"
    by (simp add: most_common_def)
  from ne have "hd ?s \<in> set c"
    by (metis hd_in_set set_sort)
  with hd show "hd (most_common n c) \<in> set c" by simp
  from hd_sort_key_le [OF assms(2), of "\<lambda>kn. - int (snd kn)"] hd
  show "snd kn \<le> snd (hd (most_common n c))" by simp
qed

lemma update_hd_count:
  assumes "update ks [] \<noteq> []"
  shows "count_list ks k \<le> snd (hd (most_common 1 (update ks [])))"
    and "snd (hd (most_common 1 (update ks []))) =
         count_list ks (fst (hd (most_common 1 (update ks []))))"
    and "fst (hd (most_common 1 (update ks []))) \<in> set ks"
proof -
  let ?c = "update ks []"
  let ?h = "hd (most_common 1 ?c)"
  from assms obtain kn where kn: "kn \<in> set ?c" by (cases ?c) auto
  from most_common_hd(2) [OF _ kn, of 1] have h: "?h \<in> set ?c" by simp
  then have "(fst ?h, snd ?h) \<in> set ?c" by simp
  from update_item_count [OF this] show "snd ?h = count_list ks (fst ?h)" .
  from h have "fst ?h \<in> fst ` set ?c" by (rule imageI)
  then show "fst ?h \<in> set ks" using update_keys_set [of ks "[]"] by simp
  show "count_list ks k \<le> snd ?h"
  proof (cases "k \<in> set ks")
    case False
    then show ?thesis by (simp add: count_list_0_iff)
  next
    case True
    then have "k \<in> fst ` set ?c" using update_keys_set [of ks "[]"] by simp
    then obtain n where n: "(k, n) \<in> set ?c" by auto
    from most_common_hd(3) [OF _ n, of 1] update_item_count [OF n] show ?thesis by simp
  qed
qed

lemma first_index_le: "first_index xs x \<le> length xs"
  by (induction xs) auto

lemma first_index_less: "first_index xs x < length xs \<longleftrightarrow> x \<in> set xs"
  by (induction xs) auto

lemma first_index_nth: "distinct xs \<Longrightarrow> i < length xs \<Longrightarrow> first_index xs (xs ! i) = i"
proof (induction xs arbitrary: i)
  case Nil
  then show ?case by simp
next
  case (Cons x xs)
  show ?case
  proof (cases i)
    case 0
    then show ?thesis by simp
  next
    case (Suc i')
    with Cons.prems have "xs ! i' \<in> set xs" and "x \<notin> set xs" by auto
    then have "xs ! i' \<noteq> x" by auto
    with Suc Cons show ?thesis by simp
  qed
qed

lemma first_index_append:
  "first_index (xs @ ys) x =
     (if x \<in> set xs then first_index xs x else length xs + first_index ys x)"
  by (induction xs) auto

lemma first_index_filter:
  "P a \<Longrightarrow> P b \<Longrightarrow>
   (first_index (filter P xs) a < first_index (filter P xs) b) =
   (first_index xs a < first_index xs b)"
  by (induction xs) auto

lemma first_index_map_fst:
  "distinct (map fst c) \<Longrightarrow> x \<in> set c \<Longrightarrow> first_index (map fst c) (fst x) = first_index c x"
proof (induction c)
  case Nil
  then show ?case by simp
next
  case (Cons y c)
  show ?case
  proof (cases "x = y")
    case True
    then show ?thesis by simp
  next
    case False
    with Cons.prems have xc: "x \<in> set c" by simp
    then have "fst x \<in> fst ` set c" by (rule imageI)
    moreover from Cons.prems have "fst y \<notin> fst ` set c" by simp
    ultimately have "fst x \<noteq> fst y" by metis
    with False xc Cons show ?thesis by simp
  qed
qed

lemma sort_key_ties:
  assumes "distinct c" and "i < j" and "j < length c"
    and "g (sort_key g c ! i) = g (sort_key g c ! j)"
  shows "first_index c (sort_key g c ! i) < first_index c (sort_key g c ! j)"
proof -
  let ?s = "sort_key g c"
  let ?P = "\<lambda>y. g y = g (?s ! j)"
  have d: "distinct ?s" using assms(1) by simp
  have len: "length ?s = length c" by simp
  from assms(2,3) len have i: "i < length ?s" and j: "j < length ?s" by simp_all
  from first_index_nth [OF d i] first_index_nth [OF d j] assms(2)
  have "first_index ?s (?s ! i) < first_index ?s (?s ! j)" by simp
  then have "first_index (filter ?P ?s) (?s ! i) < first_index (filter ?P ?s) (?s ! j)"
    using first_index_filter [of ?P "?s ! i" "?s ! j" ?s] assms(4) by simp
  moreover have "filter ?P ?s = filter ?P c" by (rule sort_key_stable)
  ultimately have "first_index (filter ?P c) (?s ! i) < first_index (filter ?P c) (?s ! j)"
    by simp
  then show ?thesis
    using first_index_filter [of ?P "?s ! i" "?s ! j" c] assms(4) by simp
qed

lemma update_first_index:
  "a \<in> set ks \<Longrightarrow> b \<in> set ks \<Longrightarrow>
   (first_index (map fst (update ks [])) a < first_index (map fst (update ks [])) b) =
   (first_index ks a < first_index ks b)"
proof (induction ks rule: rev_induct)
  case Nil
  then show ?case by simp
next
  case (snoc k ks)
  let ?K = "map fst (update ks [])"
  have set: "set ?K = set ks" using update_keys_set [of ks "[]"] by simp
  have la: "first_index ?K x < length ?K \<longleftrightarrow> x \<in> set ks" for x
    using first_index_less [of ?K x] set by simp
  have lb: "first_index ks x < length ks \<longleftrightarrow> x \<in> set ks" for x
    by (rule first_index_less)
  show ?case
  proof (cases "k \<in> set ks")
    case True
    with snoc.prems have "a \<in> set ks" "b \<in> set ks" by auto
    with snoc.IH True set show ?thesis
      by (simp add: update_snoc incr_keys first_index_append del: incr.simps)
  next
    case False
    have K': "map fst (update (ks @ [k]) []) = ?K @ [k]"
      using False set by (simp add: update_snoc incr_keys del: incr.simps)
    show ?thesis
    proof (cases "a \<in> set ks"; cases "b \<in> set ks")
      assume "a \<in> set ks" "b \<in> set ks"
      with snoc.IH set show ?thesis
        unfolding K' by (simp add: first_index_append)
    next
      assume a: "a \<in> set ks" and b: "b \<notin> set ks"
      with snoc.prems have "b = k" by simp
      with a b set la [of a] lb [of a] show ?thesis
        unfolding K' by (simp add: first_index_append)
    next
      assume a: "a \<notin> set ks" and b: "b \<in> set ks"
      with snoc.prems have "a = k" by simp
      with a b set la [of b] lb [of b] show ?thesis
        unfolding K' by (simp add: first_index_append)
    next
      assume a: "a \<notin> set ks" and b: "b \<notin> set ks"
      with snoc.prems have "a = k" "b = k" by simp_all
      then show ?thesis by simp
    qed
  qed
qed

lemma most_common_update_ties:
  assumes "i < j" and "j < length (most_common n (update ks []))"
    and "snd (most_common n (update ks []) ! i) = snd (most_common n (update ks []) ! j)"
  shows "first_index ks (fst (most_common n (update ks []) ! i))
       < first_index ks (fst (most_common n (update ks []) ! j))"
proof -
  let ?c = "update ks []"
  let ?g = "\<lambda>kn. - int (snd kn)"
  let ?s = "sort_key ?g ?c"
  let ?m = "most_common n ?c"
  have dk: "distinct (map fst ?c)" by (simp add: update_distinct)
  then have dc: "distinct ?c" using distinct_map [of fst ?c] by blast
  from assms(2) have jn: "j < n" and jc: "j < length ?c"
    by (simp_all add: most_common_def)
  with assms(1) have mi: "?m ! i = ?s ! i" and mj: "?m ! j = ?s ! j"
    by (simp_all add: most_common_def)
  from assms(1) jc have ic: "i < length ?c" by simp
  from assms(3) mi mj have "?g (?s ! i) = ?g (?s ! j)" by simp
  from sort_key_ties [OF dc assms(1) jc this]
  have lt: "first_index ?c (?s ! i) < first_index ?c (?s ! j)" .
  have si: "?s ! i \<in> set ?c" using ic nth_mem [of i ?s] by simp
  have sj: "?s ! j \<in> set ?c" using jc nth_mem [of j ?s] by simp
  from lt first_index_map_fst [OF dk si] first_index_map_fst [OF dk sj]
  have "first_index (map fst ?c) (fst (?s ! i)) < first_index (map fst ?c) (fst (?s ! j))"
    by simp
  moreover have "fst (?s ! i) \<in> set ks" "fst (?s ! j) \<in> set ks"
    using si sj update_keys_set [of ks "[]"] by auto
  ultimately show ?thesis
    using update_first_index [of "fst (?s ! i)" ks "fst (?s ! j)"] mi mj by simp
qed

lemma most_common_nth_count:
  assumes "i < length (most_common n (update ks []))"
  shows "snd (most_common n (update ks []) ! i) = count_list ks (fst (most_common n (update ks []) ! i))"
proof -
  let ?m = "most_common n (update ks [])"
  from assms have "?m ! i \<in> set ?m" by (rule nth_mem)
  with most_common_set [of n "update ks []"] have "?m ! i \<in> set (update ks [])" by auto
  then have "(fst (?m ! i), snd (?m ! i)) \<in> set (update ks [])" by simp
  from update_item_count [OF this] show ?thesis .
qed

lemma take_first_index:
  "distinct xs \<Longrightarrow> x \<in> set (take n xs) \<longleftrightarrow> x \<in> set xs \<and> first_index xs x < n"
proof (induction xs arbitrary: n)
  case Nil
  then show ?case by simp
next
  case (Cons y ys)
  then show ?case by (cases n) auto
qed

lemma first_index_take:
  "x \<in> set (take n xs) \<Longrightarrow> first_index (take n xs) x = first_index xs x"
proof (induction xs arbitrary: n)
  case Nil
  then show ?case by simp
next
  case (Cons y ys)
  then show ?case by (cases n) auto
qed

lemma first_index_card:
  assumes "distinct xs" and "x \<in> set xs"
  shows "card {y \<in> set xs. first_index xs y < first_index xs x} = first_index xs x"
proof -
  let ?i = "first_index xs x"
  have "{y \<in> set xs. first_index xs y < ?i} = set (take ?i xs)"
    using take_first_index [OF assms(1), of _ ?i] by auto
  moreover have "card (set (take ?i xs)) = length (take ?i xs)"
    using assms(1) by (simp add: distinct_card)
  moreover have "?i < length xs" using assms(2) by (simp add: first_index_less)
  ultimately show ?thesis by simp
qed

lemma nth_first_index: "x \<in> set xs \<Longrightarrow> xs ! first_index xs x = x"
  by (induction xs) auto

lemma sort_key_order_imp:
  assumes "distinct c" and "x \<in> set c" and "y \<in> set c"
    and "first_index (sort_key g c) x < first_index (sort_key g c) y"
  shows "g x < g y \<or> (g x = g y \<and> first_index c x < first_index c y)"
proof -
  let ?s = "sort_key g c"
  let ?i = "first_index ?s x" and ?j = "first_index ?s y"
  have xs: "x \<in> set ?s" and ys: "y \<in> set ?s" using assms(2,3) by simp_all
  have j: "?j < length c" using ys first_index_less [of ?s y] by simp
  have nx: "?s ! ?i = x" and ny: "?s ! ?j = y"
    using xs ys by (simp_all add: nth_first_index)
  have "sorted (map g ?s)" by (rule sorted_sort_key)
  then have "map g ?s ! ?i \<le> map g ?s ! ?j"
    using assms(4) j by (simp add: sorted_iff_nth_mono)
  with assms(4) j nx ny have le: "g x \<le> g y" by simp
  show ?thesis
  proof (cases "g x = g y")
    case True
    with nx ny have "g (?s ! ?i) = g (?s ! ?j)" by simp
    from sort_key_ties [OF assms(1,4) j this] nx ny True show ?thesis by simp
  next
    case False
    with le show ?thesis by simp
  qed
qed

lemma sort_key_order:
  assumes "distinct c" and "x \<in> set c" and "y \<in> set c"
  shows "(first_index (sort_key g c) x < first_index (sort_key g c) y) =
         (g x < g y \<or> (g x = g y \<and> first_index c x < first_index c y))"
proof
  assume "first_index (sort_key g c) x < first_index (sort_key g c) y"
  from sort_key_order_imp [OF assms this]
  show "g x < g y \<or> (g x = g y \<and> first_index c x < first_index c y)" .
next
  let ?s = "sort_key g c"
  assume r: "g x < g y \<or> (g x = g y \<and> first_index c x < first_index c y)"
  show "first_index ?s x < first_index ?s y"
  proof (rule ccontr)
    assume "\<not> first_index ?s x < first_index ?s y"
    then consider "first_index ?s y < first_index ?s x" | "first_index ?s y = first_index ?s x"
      by linarith
    then show False
    proof cases
      case 1
      from sort_key_order_imp [OF assms(1,3,2) 1] r show False by auto
    next
      case 2
      have "x \<in> set ?s" "y \<in> set ?s" using assms(2,3) by simp_all
      then have "?s ! first_index ?s x = x" "?s ! first_index ?s y = y"
        by (simp_all add: nth_first_index)
      with 2 have "x = y" by simp
      with r show False by simp
    qed
  qed
qed

lemma sorted_keys_distinct:
  assumes "distinct (map fst c)"
  shows "distinct (map fst (sort_key g c))"
proof -
  have "mset (map fst (sort_key g c)) = mset (map fst c)" by simp
  then show ?thesis using assms mset_eq_imp_distinct_iff by blast
qed

lemma item_of_key:
  "distinct (map fst c) \<Longrightarrow> a \<in> fst ` set c \<Longrightarrow> (a, count_of c a) \<in> set c"
  by (auto simp: count_of_def)

lemma sorted_keys_order:
  assumes "distinct (map fst c)" and "a \<in> fst ` set c" and "b \<in> fst ` set c"
  shows "(first_index (map fst (sort_key (\<lambda>kn. - int (snd kn)) c)) a
            < first_index (map fst (sort_key (\<lambda>kn. - int (snd kn)) c)) b)
         = ranks_before c a b"
proof -
  let ?g = "\<lambda>kn::'a \<times> nat. - int (snd kn)"
  let ?s = "sort_key ?g c"
  let ?x = "(a, count_of c a)" and ?y = "(b, count_of c b)"
  from assms have x: "?x \<in> set c" and y: "?y \<in> set c" by (simp_all add: item_of_key)
  then have xs: "?x \<in> set ?s" and ys: "?y \<in> set ?s" by simp_all
  from assms(1) have dc: "distinct c" using distinct_map [of fst c] by blast
  note ds = sorted_keys_distinct [OF assms(1), of ?g]
  from first_index_map_fst [OF ds xs] first_index_map_fst [OF ds ys]
    first_index_map_fst [OF assms(1) x] first_index_map_fst [OF assms(1) y]
    sort_key_order [OF dc x y, of ?g]
  show ?thesis by (auto simp: ranks_before_def)
qed

lemma sorted_keys_rank:
  assumes "distinct (map fst c)" and "b \<in> fst ` set c"
  shows "first_index (map fst (sort_key (\<lambda>kn. - int (snd kn)) c)) b
         = card {a \<in> fst ` set c. ranks_before c a b}"
proof -
  let ?g = "\<lambda>kn::'a \<times> nat. - int (snd kn)"
  let ?S = "map fst (sort_key ?g c)"
  have set: "set ?S = fst ` set c" by simp
  note ds = sorted_keys_distinct [OF assms(1), of ?g]
  from assms(2) set have b: "b \<in> set ?S" by simp
  have "{a \<in> set ?S. first_index ?S a < first_index ?S b}
        = {a \<in> fst ` set c. ranks_before c a b}"
    using sorted_keys_order [OF assms(1) _ assms(2)] set by auto
  with first_index_card [OF ds b] show ?thesis by simp
qed

lemma top_keys_iff:
  assumes "distinct (map fst c)"
  shows "b \<in> set (map fst (most_common n c)) \<longleftrightarrow>
         b \<in> fst ` set c \<and> card {a \<in> fst ` set c. ranks_before c a b} < n"
proof -
  let ?g = "\<lambda>kn::'a \<times> nat. - int (snd kn)"
  let ?S = "map fst (sort_key ?g c)"
  have m: "map fst (most_common n c) = take n ?S" by (simp add: most_common_def take_map)
  note ds = sorted_keys_distinct [OF assms(1), of ?g]
  have set: "set ?S = fst ` set c" by simp
  show ?thesis
  proof (cases "b \<in> fst ` set c")
    case True
    from sorted_keys_rank [OF assms(1) True] True show ?thesis
      unfolding m take_first_index [OF ds] set by simp
  next
    case False
    then show ?thesis
      unfolding m take_first_index [OF ds] set by simp
  qed
qed

lemma top_keys_index:
  assumes "distinct (map fst c)" and "b \<in> set (map fst (most_common n c))"
  shows "first_index (map fst (most_common n c)) b = card {a \<in> fst ` set c. ranks_before c a b}"
proof -
  let ?g = "\<lambda>kn::'a \<times> nat. - int (snd kn)"
  let ?S = "map fst (sort_key ?g c)"
  have m: "map fst (most_common n c) = take n ?S" by (simp add: most_common_def take_map)
  from assms(2) top_keys_iff [OF assms(1)] have b: "b \<in> fst ` set c" by blast
  from assms(2) m have "first_index (map fst (most_common n c)) b = first_index ?S b"
    using first_index_take [of b n ?S] by simp
  with sorted_keys_rank [OF assms(1) b] show ?thesis by simp
qed

lemma first_index_incr:
  "a \<in> fst ` set c \<Longrightarrow> first_index (map fst (incr k c)) a = first_index (map fst c) a"
  by (simp add: incr_keys first_index_append del: incr.simps)

lemma ranks_before_irrefl: "\<not> ranks_before c a a"
  by (simp add: ranks_before_def)

lemma ranks_before_incr_other:
  "a \<in> fst ` set c \<Longrightarrow> b \<in> fst ` set c \<Longrightarrow> a \<noteq> k \<Longrightarrow> b \<noteq> k \<Longrightarrow>
   ranks_before (incr k c) a b = ranks_before c a b"
  by (simp add: ranks_before_def count_of_incr first_index_incr del: incr.simps)

lemma ranks_before_incr_k:
  "a \<noteq> k \<Longrightarrow> ranks_before (incr k c) a k \<Longrightarrow> ranks_before c a k"
  by (auto simp: ranks_before_def count_of_incr simp del: incr.simps)

lemma ranks_before_incr_count:
  "t \<noteq> k \<Longrightarrow> ranks_before (incr k c) k t \<Longrightarrow> count_of c t \<le> Suc (count_of c k)"
  by (auto simp: ranks_before_def count_of_incr simp del: incr.simps)

lemma incr_rank_k:
  assumes d: "distinct (map fst c)" and k: "k \<in> set (map fst (most_common n c))"
  shows "k \<in> set (map fst (most_common n (incr k c)))
       \<and> first_index (map fst (most_common n (incr k c))) k
         \<le> first_index (map fst (most_common n c)) k"
proof -
  let ?c' = "incr k c"
  let ?R = "{a \<in> fst ` set c. ranks_before c a k}"
  let ?R' = "{a \<in> fst ` set ?c'. ranks_before ?c' a k}"
  note d' = incr_distinct [OF d, of k]
  from k top_keys_iff [OF d] have kc: "k \<in> fst ` set c" and r: "card ?R < n" by blast+
  then have keys: "fst ` set ?c' = fst ` set c" by (auto simp: incr_keys_set simp del: incr.simps)
  have "?R' \<subseteq> ?R"
  proof
    fix a assume a: "a \<in> ?R'"
    then have rb: "ranks_before ?c' a k" by simp
    then have "a \<noteq> k" using ranks_before_irrefl by metis
    from ranks_before_incr_k [OF this rb] a keys show "a \<in> ?R" by simp
  qed
  moreover have "finite ?R" by simp
  ultimately have le: "card ?R' \<le> card ?R" by (rule card_mono [rotated])
  from kc keys have "k \<in> fst ` set ?c'" by simp
  with le r top_keys_iff [OF d', of k n] have k': "k \<in> set (map fst (most_common n ?c'))"
    by simp
  from top_keys_index [OF d' k'] top_keys_index [OF d k] le k' show ?thesis by simp
qed

lemma incr_displaced:
  assumes d: "distinct (map fst c)" and t: "t \<in> set (map fst (most_common n c))"
    and t': "t \<notin> set (map fst (most_common n (incr k c)))"
  shows "count_of c t \<le> Suc (count_of c k)"
proof -
  let ?c' = "incr k c"
  let ?R = "{a \<in> fst ` set c. ranks_before c a t}"
  let ?R' = "{a \<in> fst ` set ?c'. ranks_before ?c' a t}"
  note d' = incr_distinct [OF d, of k]
  from t t' incr_rank_k [OF d, of k n] have tk: "t \<noteq> k" by auto
  from t top_keys_iff [OF d] have tc: "t \<in> fst ` set c" and r: "card ?R < n" by blast+
  have keys: "fst ` set ?c' = insert k (fst ` set c)" by (rule incr_keys_set)
  with tc have tc': "t \<in> fst ` set ?c'" by simp
  with t' top_keys_iff [OF d', of t n] have r': "\<not> card ?R' < n" by simp
  have "ranks_before ?c' k t"
  proof (rule ccontr)
    assume nb: "\<not> ranks_before ?c' k t"
    have "?R' \<subseteq> ?R"
    proof
      fix a assume a: "a \<in> ?R'"
      then have rb: "ranks_before ?c' a t" by simp
      with nb have ak: "a \<noteq> k" by auto
      with a keys have ac: "a \<in> fst ` set c" by simp
      from ranks_before_incr_other [OF ac tc ak tk] rb ac show "a \<in> ?R" by simp
    qed
    moreover have "finite ?R" by simp
    ultimately have "card ?R' \<le> card ?R" by (rule card_mono [rotated])
    with r r' show False by simp
  qed
  from ranks_before_incr_count [OF tk this] show ?thesis .
qed

lemma top_keys_after_observation:
  "(k \<in> set (map fst (most_common n (update ks []))) \<longrightarrow>
      k \<in> set (map fst (most_common n (update (ks @ [k]) [])))
      \<and> first_index (map fst (most_common n (update (ks @ [k]) []))) k
        \<le> first_index (map fst (most_common n (update ks []))) k)
   \<and> (t \<in> set (map fst (most_common n (update ks [])))
       \<and> t \<notin> set (map fst (most_common n (update (ks @ [k]) [])))
      \<longrightarrow> count_list ks t \<le> count_list (ks @ [k]) k)"
proof -
  have d: "distinct (map fst (update ks []))" by (simp add: update_distinct)
  have c: "count_of (update ks []) x = count_list ks x" for x
    by (simp add: count_of_update count_of_Nil)
  from incr_rank_k [OF d, of k n] incr_displaced [OF d, of t n k] c
  show ?thesis by (auto simp: update_snoc simp del: incr.simps)
qed

lemma q3_memory_keys:
  "q3_memory (Some ls) = Inr r \<Longrightarrow> r = most_common 10 (update (q3_keys ls) [])"
  using q3_loop_keys [of ls "[]"] by (auto simp: q3_memory_def split: sum.splits)

lemma q2_memory_keys:
  "q2_memory P (Some ls) = Inr r \<Longrightarrow> r = most_common 10 (update (q2_keys P ls) [])"
  using q2_loop_keys [of P ls "[]"] by (auto simp: q2_memory_def split: sum.splits)

lemma q1_memory_keys:
  assumes "q1_memory f (Some ls) = Inr r"
  shows "map fst r = map fst (most_common 10 (update (map fst (q1_keys f ls)) []))"
proof -
  from assms obtain st where l: "q1_loop f ls ([], []) = Inr st"
    and t: "top_users (snd st) (map fst (most_common 10 (fst st))) = Inr r"
    by (auto simp: q1_memory_def split: sum.splits)
  from q1_loop_keys [OF l] top_users_Inr [OF t] show ?thesis by simp
qed

lemma q3_keys_snoc: "q3_keys (ls @ [l]) = q3_keys ls @ q3_line_keys l"
  by (simp add: q3_keys_def)

lemma q2_keys_snoc: "q2_keys P (ls @ [l]) = q2_keys P ls @ q2_line_keys P l"
  by (simp add: q2_keys_def)

lemma q1_keys_snoc:
  "q1_keys f (ls @ [l]) = q1_keys f ls @ (case q1_line_key f l of None \<Rightarrow> [] | Some du \<Rightarrow> [du])"
  by (induction ls) (simp_all add: q1_keys_Nil q1_keys_Cons split: option.splits)

lemmas q3_eval = q3_memory_def example_mentions_def q3_line_def dict_get_def try_except_def
  most_common_def q3_keys_def q3_line_keys_def example_eleven_users_def

lemma eleven_before:
  "q3_memory (Some example_eleven_users)
     = Inr [(KStr (str ''a''), 2), (KStr (str ''b''), 2), (KStr (str ''c''), 2),
            (KStr (str ''d''), 2), (KStr (str ''e''), 2), (KStr (str ''f''), 2),
            (KStr (str ''g''), 2), (KStr (str ''h''), 2), (KStr (str ''i''), 2),
            (KStr (str ''t''), 2)]"
  by (simp add: q3_eval)

lemma eleven_after:
  "q3_memory (Some (example_eleven_users @ [example_mentions [''k'']]))
     = Inr [(KStr (str ''k''), 2), (KStr (str ''a''), 2), (KStr (str ''b''), 2),
            (KStr (str ''c''), 2), (KStr (str ''d''), 2), (KStr (str ''e''), 2),
            (KStr (str ''f''), 2), (KStr (str ''g''), 2), (KStr (str ''h''), 2),
            (KStr (str ''i''), 2)]"
  by (simp add: q3_eval)

lemma eleven_counts:
  "count_list (q3_keys (example_eleven_users @ [example_mentions [''k'']])) (KStr (str ''k'')) = 2"
  "count_list (q3_keys example_eleven_users) (KStr (str ''t'')) = 2"
  "q3_line_keys (example_mentions [''k'']) = [KStr (str ''k'')]"
  by (simp_all add: q3_eval)

lemma two_before:
  "q3_memory (Some [example_mentions [''k''], example_mentions [''j'']])
     = Inr [(KStr (str ''k''), 1), (KStr (str ''j''), 1)]"
  by (simp add: q3_eval)

lemma two_after:
  "q3_memory (Some ([example_mentions [''k''], example_mentions [''j'']]
                    @ [example_mentions [''k'', ''j'', ''j'']]))
     = Inr [(KStr (str ''j''), 3), (KStr (str ''k''), 2)]"
  "KStr (str ''k'') \<in> set (q3_line_keys (example_mentions [''k'', ''j'', ''j'']))"
  by (simp_all add: q3_eval)

subsection \<open>The streaming results come by descending count\<close>

lemma streaming_results_descending:
  "(q1_memory f (Some ls1) = Inr r1 \<longrightarrow>
      sorted_wrt (\<lambda>a b. count_list (map fst (q1_keys f ls1)) b
                        \<le> count_list (map fst (q1_keys f ls1)) a) (map fst r1))
   \<and> (q2_memory P (Some ls2) = Inr r2 \<longrightarrow> sorted_wrt (\<lambda>a b. snd b \<le> snd a) r2)
   \<and> (q3_memory (Some ls3) = Inr r3 \<longrightarrow> sorted_wrt (\<lambda>a b. snd b \<le> snd a) r3)"
proof (intro conjI impI)
  let ?ks = "map fst (q1_keys f ls1)"
  let ?m = "most_common 10 (update ?ks [])"
  assume "q1_memory f (Some ls1) = Inr r1"
  from q1_memory_keys [OF this] have m: "map fst r1 = map fst ?m" .
  have "sorted_wrt (\<lambda>a b. snd b \<le> snd a) ?m" by (rule most_common_sorted)
  moreover have "snd x = count_list ?ks (fst x)" if "x \<in> set ?m" for x
  proof -
    from that most_common_set [of 10 "update ?ks []"] have "(fst x, snd x) \<in> set (update ?ks [])"
      by auto
    from update_item_count [OF this] show ?thesis .
  qed
  ultimately have "sorted_wrt (\<lambda>a b. count_list ?ks (fst b) \<le> count_list ?ks (fst a)) ?m"
    by (auto elim: sorted_wrt_mono_rel [rotated])
  then show "sorted_wrt (\<lambda>a b. count_list ?ks b \<le> count_list ?ks a) (map fst r1)"
    unfolding m by (simp add: sorted_wrt_map)
next
  assume "q2_memory P (Some ls2) = Inr r2"
  from q2_memory_keys [OF this] show "sorted_wrt (\<lambda>a b. snd b \<le> snd a) r2"
    by (simp add: most_common_sorted)
next
  assume "q3_memory (Some ls3) = Inr r3"
  from q3_memory_keys [OF this] show "sorted_wrt (\<lambda>a b. snd b \<le> snd a) r3"
    by (simp add: most_common_sorted)
qed

subsection \<open>The author chosen by the query of \<open>q1_time\<close>\<close>

text \<open>
  The row of rank 1 of a date's partition has the largest \<open>user_tweets\<close> of the
  partition: the author that \<open>q1_time\<close> returns for a date has the most rows on it.
\<close>

lemma count_joined_rows:
  "count_list
     (concat (map (\<lambda>p. case fst p of
                          None \<Rightarrow> []
                        | Some d \<Rightarrow> if Some d \<in> D then [(d, snd p)] else [])
                  rows)) (d, u)
   = (if Some d \<in> D then count_list rows (Some d, u) else 0)"
  by (induction rows) (auto simp: prod_eq_iff split: option.splits)

lemma count_joined:
  "count_list (joined parsed) (d, u)
   = (if Some d \<in> set (map fst (date_counts parsed))
      then count_list parsed (Some d, u) else 0)"
  unfolding joined_def by (rule count_joined_rows)

lemma first_index_0_hd: "x \<in> set xs \<Longrightarrow> first_index xs x = 0 \<Longrightarrow> hd xs = x"
  by (cases xs) (auto split: if_splits)

lemma q1_time_top_author:
  assumes "(d, u) \<in> set (q1_time parsed)"
  shows "0 < count_list parsed (Some d, u)
     \<and> (\<forall>u'. count_list parsed (Some d, u') \<le> count_list parsed (Some d, u))"
proof -
  let ?grouped = "update (joined parsed) []"
  let ?g = "\<lambda>r::('a \<times> 'b) \<times> nat. - int (snd r)"
  from assms obtain n where g: "((d, u), n) \<in> set ?grouped"
    and rk: "row_number ?grouped ((d, u), n) = 1"
    by (auto simp: q1_time_def user_counts_def Let_def)
  let ?part = "filter (\<lambda>r. fst (fst r) = d) ?grouped"
  from g have gp: "((d, u), n) \<in> set ?part" by simp
  from rk have "first_index (sort_key ?g ?part) ((d, u), n) = 0"
    by (simp add: row_number_def)
  with gp have hd: "hd (sort_key ?g ?part) = ((d, u), n)"
    using first_index_0_hd [of "((d, u), n)" "sort_key ?g ?part"] by simp
  from update_item_count [OF g] have n: "n = count_list (joined parsed) (d, u)" .
  from g have "(d, u) \<in> fst ` set ?grouped" by force
  then have ju: "(d, u) \<in> set (joined parsed)"
    using update_keys_set [of "joined parsed" "[]"] by simp
  then have pos: "count_list (joined parsed) (d, u) \<noteq> 0" by (simp add: count_list_0_iff)
  with count_joined [of parsed d u]
  have top: "Some d \<in> set (map fst (date_counts parsed))" by (auto split: if_splits)
  have cj: "count_list (joined parsed) (d, u') = count_list parsed (Some d, u')" for u'
    using count_joined [of parsed d u'] top by simp
  have le: "count_list (joined parsed) (d, u') \<le> n" for u'
  proof (cases "(d, u') \<in> set (joined parsed)")
    case False
    then show ?thesis by (simp add: count_list_0_iff)
  next
    case True
    then have "(d, u') \<in> fst ` set ?grouped"
      using update_keys_set [of "joined parsed" "[]"] by simp
    then obtain n' where n': "((d, u'), n') \<in> set ?grouped" by auto
    then have "((d, u'), n') \<in> set ?part" by simp
    from hd_sort_key_le [OF this, of ?g] hd have "n' \<le> n" by simp
    with update_item_count [OF n'] show ?thesis by simp
  qed
  from pos le n cj show ?thesis by simp
qed

section \<open>Malformed lines\<close>

text \<open>
  C7.  The docstrings promise that malformed lines are skipped silently and that only a
  missing file is fatal.  A line that is valid JSON but not an object, here \<open>[]\<close>,
  makes \<open>tweet.get\<close> raise \<open>AttributeError\<close>, which none of the three \<open>except\<close> clauses
  lists: each streaming analysis aborts on a file that exists and is readable.
\<close>

theorem non_object_line_aborts:
  "q1_memory f (Some [Some (JArr [])]) = Inl AttributeError
   \<and> q2_memory P (Some [Some (JArr [])]) = Inl AttributeError
   \<and> q3_memory (Some [Some (JArr [])]) = Inl AttributeError"
  by (simp add: q1_memory_def q2_memory_def q3_memory_def q1_line_def q2_line_def
      q3_line_def try_except_def)

section \<open>What \<open>q1_memory\<close> counts\<close>

text \<open>
  C10.  In \<open>q1_memory\<close> a line changes the tables only if it is an object whose \<open>date\<close>
  is a non-empty string that parses and whose \<open>user\<close> has a truthy \<open>username\<close>; then the
  date's count is incremented.  A line with a date that parses and a user whose
  \<open>username\<close> is absent or empty leaves both tables as they were.
\<close>

theorem q1_counts_need_date_and_username:
  "(q1_line f st l1 = (e, st') \<and> st' \<noteq> st \<longrightarrow>
     (\<exists>kvs s d ukvs. l1 = Some (JObj kvs)
        \<and> dict_get kvs (str ''date'') (JStr []) = JStr s \<and> s \<noteq> []
        \<and> f (replace_Z s) = Some d
        \<and> dict_get kvs (str ''user'') (JObj []) = JObj ukvs
        \<and> truthy (dict_get ukvs (str ''username'') (JStr []))
        \<and> fst st' = incr d (fst st)))
   \<and> (dict_get kvs2 (str ''date'') (JStr []) = JStr s2 \<and> f (replace_Z s2) = Some d2
        \<and> dict_get kvs2 (str ''user'') (JObj []) = JObj ukvs2
        \<and> \<not> truthy (dict_get ukvs2 (str ''username'') (JStr []))
      \<longrightarrow> q1_line f st2 (Some (JObj kvs2)) = (None, st2))"
  unfolding q1_line_def Let_def
  by (auto split: option.splits json.splits if_splits)

theorem q1_counts_need_date_and_username_witness:
  "(q1_line example_fromisoformat ([], [])
      (Some (JObj [(str ''date'', JStr (str ''2021-02-24T09:23:35+00:00'')),
                   (str ''user'', JObj [(str ''username'', JStr (str ''a''))])]))
      = (None, ([((2021, 2, 24), 1)], [((2021, 2, 24), [(KStr (str ''a''), 1)])]))
    \<and> ([((2021, 2, 24), 1)], [((2021, 2, 24), [(KStr (str ''a''), 1)])])
        \<noteq> (([], []) :: (nat \<times> nat \<times> nat) q1_state)
    \<and> fst ([((2021::nat, 2::nat, 24::nat), 1::nat)], [((2021::nat, 2::nat, 24::nat), [(KStr (str ''a''), 1::nat)])])
        = incr (2021, 2, 24) (fst (([], []) :: (nat \<times> nat \<times> nat) q1_state)))
   \<and> (dict_get [(str ''date'', JStr (str ''2021-02-24T09:23:35Z'')),
                 (str ''user'', JObj [(str ''username'', JStr [])])]
         (str ''date'') (JStr []) = JStr (str ''2021-02-24T09:23:35Z'')
      \<and> example_fromisoformat (replace_Z (str ''2021-02-24T09:23:35Z'')) = Some (2021, 2, 24)
      \<and> dict_get [(str ''date'', JStr (str ''2021-02-24T09:23:35Z'')),
                   (str ''user'', JObj [(str ''username'', JStr [])])]
           (str ''user'') (JObj []) = JObj [(str ''username'', JStr [])]
      \<and> \<not> truthy (dict_get [(str ''username'', JStr [])] (str ''username'') (JStr []))
      \<and> q1_line example_fromisoformat ([((2021, 2, 24), 1)], [])
           (Some (JObj [(str ''date'', JStr (str ''2021-02-24T09:23:35Z'')),
                        (str ''user'', JObj [(str ''username'', JStr [])])]))
         = (None, ([((2021, 2, 24), 1)], [])))"
proof -
  have h1: "q1_line example_fromisoformat ([], [])
      (Some (JObj [(str ''date'', JStr (str ''2021-02-24T09:23:35+00:00'')),
                   (str ''user'', JObj [(str ''username'', JStr (str ''a''))])]))
      = (None, ([((2021, 2, 24), 1)], [((2021, 2, 24), [(KStr (str ''a''), 1)])]))"
    by (simp add: q1_line_def dict_get_def replace_Z_def)
  have h2: "dict_get [(str ''date'', JStr (str ''2021-02-24T09:23:35Z'')),
                 (str ''user'', JObj [(str ''username'', JStr [])])]
         (str ''date'') (JStr []) = JStr (str ''2021-02-24T09:23:35Z'')
      \<and> example_fromisoformat (replace_Z (str ''2021-02-24T09:23:35Z'')) = Some (2021, 2, 24)
      \<and> dict_get [(str ''date'', JStr (str ''2021-02-24T09:23:35Z'')),
                   (str ''user'', JObj [(str ''username'', JStr [])])]
           (str ''user'') (JObj []) = JObj [(str ''username'', JStr [])]
      \<and> \<not> truthy (dict_get [(str ''username'', JStr [])] (str ''username'') (JStr []))"
    by (simp add: dict_get_def replace_Z_def)
  from h1 h2 q1_counts_need_date_and_username
     [of example_fromisoformat "([], [])" _ None
         "([((2021, 2, 24), 1)], [((2021, 2, 24), [(KStr (str ''a''), 1)])])"
         "[(str ''date'', JStr (str ''2021-02-24T09:23:35Z'')),
           (str ''user'', JObj [(str ''username'', JStr [])])]"
         "str ''2021-02-24T09:23:35Z''" "(2021, 2, 24)" "[(str ''username'', JStr [])]"
         "([((2021, 2, 24), 1)], [])"]
  show ?thesis by simp
qed

section \<open>Totals of the count tables\<close>

text \<open>
  C2, as amended.  When the aggregation pass completes, the sum of all counts of a
  table is the total number of keys that the lines contributed, every occurrence
  counted: for \<open>q1_memory\<close> a line contributes at most one key, so the sum is the number
  of lines with a key; for \<open>q2_memory\<close> and \<open>q3_memory\<close> a line contributes one count
  for each emoji or mention it holds.
\<close>

theorem counts_sum_to_observations:
  "(q1_loop f ls1 ([], []) = Inr st \<longrightarrow>
      sum_list (map snd (fst st)) = length (filter (\<lambda>l. q1_line_key f l \<noteq> None) ls1))
   \<and> (q2_loop P ls2 [] = Inr c2 \<longrightarrow>
      sum_list (map snd c2) = sum_list (map (\<lambda>l. length (q2_line_keys P l)) ls2))
   \<and> (q3_loop ls3 [] = Inr c3 \<longrightarrow>
      sum_list (map snd c3) = sum_list (map (\<lambda>l. length (q3_line_keys l)) ls3))"
proof (intro conjI impI)
  assume "q1_loop f ls1 ([], []) = Inr st"
  from q1_loop_keys [OF this]
  show "sum_list (map snd (fst st)) = length (filter (\<lambda>l. q1_line_key f l \<noteq> None) ls1)"
    by (simp add: update_sum length_q1_keys)
next
  assume "q2_loop P ls2 [] = Inr c2"
  from q2_loop_keys [OF this]
  show "sum_list (map snd c2) = sum_list (map (\<lambda>l. length (q2_line_keys P l)) ls2)"
    by (simp add: update_sum q2_keys_def length_concat_keys)
next
  assume "q3_loop ls3 [] = Inr c3"
  from q3_loop_keys [OF this]
  show "sum_list (map snd c3) = sum_list (map (\<lambda>l. length (q3_line_keys l)) ls3)"
    by (simp add: update_sum q3_keys_def length_concat_keys)
qed

theorem counts_sum_to_observations_witness:
  "q1_loop example_fromisoformat
       [example_tweet ''2021-02-24T09:23:35+00:00'' ''a'', None] ([], [])
     = Inr ([((2021, 2, 24), 1)], [((2021, 2, 24), [(KStr (str ''a''), 1)])])
   \<and> sum_list (map snd (fst ([((2021::nat, 2::nat, 24::nat), 1::nat)],
                               [((2021::nat, 2::nat, 24::nat), [(KStr (str ''a''), 1::nat)])])))
       = length (filter (\<lambda>l. q1_line_key example_fromisoformat l \<noteq> None)
                  [example_tweet ''2021-02-24T09:23:35+00:00'' ''a'', None])
   \<and> q2_loop (\<lambda>c. c = 0x1F64F) [example_content [0x1F64F, 0x1F64F]] []
     = Inr [([0x1F64F], 2)]
   \<and> sum_list (map snd [([0x1F64F::nat], 2::nat)])
       = sum_list (map (\<lambda>l. length (q2_line_keys (\<lambda>c. c = 0x1F64F) l))
                    [example_content [0x1F64F, 0x1F64F]])
   \<and> q3_loop [example_mentions [''a'', ''b'']] []
     = Inr [(KStr (str ''a''), 1), (KStr (str ''b''), 1)]
   \<and> sum_list (map snd [(KStr (str ''a''), 1::nat), (KStr (str ''b''), 1)])
       = sum_list (map (\<lambda>l. length (q3_line_keys l)) [example_mentions [''a'', ''b'']])"
proof -
  have h1: "q1_loop example_fromisoformat
       [example_tweet ''2021-02-24T09:23:35+00:00'' ''a'', None] ([], [])
     = Inr ([((2021, 2, 24), 1)], [((2021, 2, 24), [(KStr (str ''a''), 1)])])"
    by (simp add: example_tweet_def q1_line_def dict_get_def replace_Z_def try_except_def)
  have h2: "q2_loop (\<lambda>c. c = 0x1F64F) [example_content [0x1F64F, 0x1F64F]] []
     = Inr [([0x1F64F], 2)]"
    by (simp add: example_content_def q2_line_def dict_get_def py_or_def try_except_def
        findall_def update_def)
  have h3: "q3_loop [example_mentions [''a'', ''b'']] []
     = Inr [(KStr (str ''a''), 1), (KStr (str ''b''), 1)]"
    by (simp add: example_mentions_def q3_line_def dict_get_def try_except_def)
  from h1 h2 h3
    counts_sum_to_observations
      [of example_fromisoformat
          "[example_tweet ''2021-02-24T09:23:35+00:00'' ''a'', None]"
          "([((2021, 2, 24), 1)], [((2021, 2, 24), [(KStr (str ''a''), 1)])])"
          "\<lambda>c. c = 0x1F64F" "[example_content [0x1F64F, 0x1F64F]]" "[([0x1F64F], 2)]"
          "[example_mentions [''a'', ''b'']]"
          "[(KStr (str ''a''), 1), (KStr (str ''b''), 1)]"]
  show ?thesis by simp
qed

text \<open>
  The claim as stated fails: one line with two mentions is one record with a
  non-empty extraction, and the counts sum to 2.
\<close>

theorem one_record_two_mentions:
  "q3_loop [example_mentions [''a'', ''b'']] []
     = Inr [(KStr (str ''a''), 1), (KStr (str ''b''), 1)]
   \<and> sum_list (map snd [(KStr (str ''a''), 1::nat), (KStr (str ''b''), 1)]) = 2
   \<and> length (filter (\<lambda>l. q3_line_keys l \<noteq> []) [example_mentions [''a'', ''b'']]) = 1"
  by (simp add: example_mentions_def q3_line_def q3_line_keys_def dict_get_def try_except_def)

section \<open>The nested table agrees with the date table\<close>

text \<open>
  C5.  After every line of the pass of \<open>q1_memory\<close>, and so also at its end, the
  counts of a date's nested author table sum to the date's count in \<open>date_counts\<close>
  (both are 0 for a date that was never counted).
\<close>

theorem nested_counts_sum_to_date_count:
  "q1_loop f (ls @ ls') ([], []) = Inr final \<Longrightarrow>
   \<exists>st. q1_loop f ls ([], []) = Inr st
      \<and> (\<forall>d. sum_list (map snd (nested_get (snd st) d)) = count_of (fst st) d)"
  using q1_loop_append [of f ls ls' "([], [])" final] q1_state_invariant [of f ls] by blast

theorem nested_counts_sum_to_date_count_witness:
  "q1_loop example_fromisoformat
       ([example_tweet ''2021-02-24T09:23:35+00:00'' ''a''] @ [None]) ([], [])
     = Inr ([((2021, 2, 24), 1)], [((2021, 2, 24), [(KStr (str ''a''), 1)])])
   \<and> (\<exists>st. q1_loop example_fromisoformat
                [example_tweet ''2021-02-24T09:23:35+00:00'' ''a''] ([], []) = Inr st
          \<and> (\<forall>d. sum_list (map snd (nested_get (snd st) d)) = count_of (fst st) d))"
proof -
  have h: "q1_loop example_fromisoformat
       ([example_tweet ''2021-02-24T09:23:35+00:00'' ''a''] @ [None]) ([], [])
     = Inr ([((2021, 2, 24), 1)], [((2021, 2, 24), [(KStr (str ''a''), 1)])])"
    by (simp add: example_tweet_def q1_line_def dict_get_def replace_Z_def try_except_def)
  from h nested_counts_sum_to_date_count [OF h] show ?thesis by simp
qed

section \<open>The top author lookup\<close>

text \<open>
  C6.  \<open>q1_memory\<close> never raises \<open>IndexError\<close>: when the pass completes, every date
  selected by \<open>date_counts.most_common(10)\<close> has a non-empty nested author table, so
  \<open>most_common(1)[0]\<close> finds its element.
\<close>

theorem top_author_lookup_never_empty:
  "q1_memory f file \<noteq> Inl IndexError
   \<and> (q1_loop f ls ([], []) = Inr st \<longrightarrow>
        (\<forall>d \<in> set (map fst (most_common 10 (fst st))). nested_get (snd st) d \<noteq> []))"
proof (intro conjI impI ballI)
  show "q1_memory f file \<noteq> Inl IndexError"
  proof (cases "file")
    case None
    then show ?thesis by (simp add: q1_memory_def)
  next
    case (Some lines)
    show ?thesis
    proof (cases "q1_loop f lines ([], [])")
      case (Inl e)
      with q1_loop_exn [of f lines "([], [])"] Some show ?thesis
        by (auto simp: q1_memory_def)
    next
      case (Inr st')
      from q1_memory_returns [OF Inr] Some show ?thesis by auto
    qed
  qed
next
  fix d
  assume l: "q1_loop f ls ([], []) = Inr st"
    and d: "d \<in> set (map fst (most_common 10 (fst st)))"
  from d most_common_set [of 10 "fst st"] have "d \<in> fst ` set (fst st)" by auto
  from q1_nested_nonempty [OF l this] show "nested_get (snd st) d \<noteq> []" .
qed

theorem top_author_lookup_never_empty_witness:
  "q1_loop example_fromisoformat [example_tweet ''2021-02-24T09:23:35+00:00'' ''a''] ([], [])
     = Inr ([((2021, 2, 24), 1)], [((2021, 2, 24), [(KStr (str ''a''), 1)])])
   \<and> (2021, 2, 24) \<in> set (map fst (most_common 10 [((2021::nat, 2::nat, 24::nat), 1)]))
   \<and> nested_get [((2021::nat, 2::nat, 24::nat), [(KStr (str ''a''), 1::nat)])] (2021, 2, 24) \<noteq> []
   \<and> q1_memory example_fromisoformat
        (Some [example_tweet ''2021-02-24T09:23:35+00:00'' ''a'']) \<noteq> Inl IndexError"
proof -
  have h: "q1_loop example_fromisoformat
       [example_tweet ''2021-02-24T09:23:35+00:00'' ''a''] ([], [])
     = Inr ([((2021, 2, 24), 1)], [((2021, 2, 24), [(KStr (str ''a''), 1)])])"
    by (simp add: example_tweet_def q1_line_def dict_get_def replace_Z_def try_except_def)
  have m: "(2021, 2, 24) \<in> set (map fst (most_common 10 [((2021::nat, 2::nat, 24::nat), 1)]))"
    by (simp add: most_common_def)
  from h m
    top_author_lookup_never_empty
      [of example_fromisoformat "Some [example_tweet ''2021-02-24T09:23:35+00:00'' ''a'']"
          "[example_tweet ''2021-02-24T09:23:35+00:00'' ''a'']"
          "([((2021, 2, 24), 1)], [((2021, 2, 24), [(KStr (str ''a''), 1)])])"]
  show ?thesis by auto
qed

section \<open>Length of the result\<close>

text \<open>
  C8.  When the pass completes, each streaming analysis returns a list of length
  \<open>min(10, number of distinct keys observed)\<close>; an empty file yields the empty list.
\<close>

theorem result_length:
  "(q1_loop f ls1 ([], []) = Inr st \<longrightarrow>
      (\<exists>r. q1_memory f (Some ls1) = Inr r
          \<and> length r = min 10 (card (set (map fst (q1_keys f ls1))))))
   \<and> (q2_loop P ls2 [] = Inr c2 \<longrightarrow>
      (\<exists>r. q2_memory P (Some ls2) = Inr r \<and> length r = min 10 (card (set (q2_keys P ls2)))))
   \<and> (q3_loop ls3 [] = Inr c3 \<longrightarrow>
      (\<exists>r. q3_memory (Some ls3) = Inr r \<and> length r = min 10 (card (set (q3_keys ls3)))))
   \<and> q1_memory f (Some []) = Inr []
   \<and> q2_memory P (Some []) = Inr []
   \<and> q3_memory (Some []) = Inr []"
proof (intro conjI impI)
  assume l: "q1_loop f ls1 ([], []) = Inr st"
  from q1_memory_returns [OF l] obtain r where r: "q1_memory f (Some ls1) = Inr r" by blast
  with l have "top_users (snd st) (map fst (most_common 10 (fst st))) = Inr r"
    by (simp add: q1_memory_def)
  from top_users_Inr [OF this] have "map fst r = map fst (most_common 10 (fst st))" by simp
  then have "length r = length (most_common 10 (fst st))"
    using length_map [of fst r] length_map [of fst "most_common 10 (fst st)"] by simp
  with q1_loop_keys [OF l] have "length r = min 10 (card (set (map fst (q1_keys f ls1))))"
    by (simp add: most_common_length update_length)
  with r show "\<exists>r. q1_memory f (Some ls1) = Inr r
      \<and> length r = min 10 (card (set (map fst (q1_keys f ls1))))" by blast
next
  assume l: "q2_loop P ls2 [] = Inr c2"
  from q2_loop_keys [OF l] l
  show "\<exists>r. q2_memory P (Some ls2) = Inr r \<and> length r = min 10 (card (set (q2_keys P ls2)))"
    by (simp add: q2_memory_def most_common_length update_length)
next
  assume l: "q3_loop ls3 [] = Inr c3"
  from q3_loop_keys [OF l] l
  show "\<exists>r. q3_memory (Some ls3) = Inr r \<and> length r = min 10 (card (set (q3_keys ls3)))"
    by (simp add: q3_memory_def most_common_length update_length)
next
  show "q1_memory f (Some []) = Inr []" by (simp add: q1_memory_def most_common_def)
  show "q2_memory P (Some []) = Inr []" by (simp add: q2_memory_def most_common_def)
  show "q3_memory (Some []) = Inr []" by (simp add: q3_memory_def most_common_def)
qed

theorem result_length_witness:
  "q1_loop example_fromisoformat [example_tweet ''2021-02-24T09:23:35+00:00'' ''a''] ([], [])
     = Inr ([((2021, 2, 24), 1)], [((2021, 2, 24), [(KStr (str ''a''), 1)])])
   \<and> (\<exists>r. q1_memory example_fromisoformat
              (Some [example_tweet ''2021-02-24T09:23:35+00:00'' ''a'']) = Inr r
          \<and> length r = min 10 (card (set (map fst
               (q1_keys example_fromisoformat
                  [example_tweet ''2021-02-24T09:23:35+00:00'' ''a''])))))
   \<and> q2_loop (\<lambda>c. c = 0x1F64F) [example_content [0x1F64F, 0x1F64F]] []
     = Inr [([0x1F64F], 2)]
   \<and> (\<exists>r. q2_memory (\<lambda>c. c = 0x1F64F) (Some [example_content [0x1F64F, 0x1F64F]]) = Inr r
          \<and> length r = min 10 (card (set (q2_keys (\<lambda>c. c = 0x1F64F)
               [example_content [0x1F64F, 0x1F64F]]))))
   \<and> q3_loop [example_mentions [''a'', ''b'']] []
     = Inr [(KStr (str ''a''), 1), (KStr (str ''b''), 1)]
   \<and> (\<exists>r. q3_memory (Some [example_mentions [''a'', ''b'']]) = Inr r
          \<and> length r = min 10 (card (set (q3_keys [example_mentions [''a'', ''b'']]))))"
proof -
  have h1: "q1_loop example_fromisoformat
       [example_tweet ''2021-02-24T09:23:35+00:00'' ''a''] ([], [])
     = Inr ([((2021, 2, 24), 1)], [((2021, 2, 24), [(KStr (str ''a''), 1)])])"
    by (simp add: example_tweet_def q1_line_def dict_get_def replace_Z_def try_except_def)
  have h2: "q2_loop (\<lambda>c. c = 0x1F64F) [example_content [0x1F64F, 0x1F64F]] []
     = Inr [([0x1F64F], 2)]"
    by (simp add: example_content_def q2_line_def dict_get_def py_or_def try_except_def
        findall_def update_def)
  have h3: "q3_loop [example_mentions [''a'', ''b'']] []
     = Inr [(KStr (str ''a''), 1), (KStr (str ''b''), 1)]"
    by (simp add: example_mentions_def q3_line_def dict_get_def try_except_def)
  from h1 h2 h3
    result_length
      [of example_fromisoformat "[example_tweet ''2021-02-24T09:23:35+00:00'' ''a'']"
          "([((2021, 2, 24), 1)], [((2021, 2, 24), [(KStr (str ''a''), 1)])])"
          "\<lambda>c. c = 0x1F64F" "[example_content [0x1F64F, 0x1F64F]]" "[([0x1F64F], 2)]"
          "[example_mentions [''a'', ''b'']]"
          "[(KStr (str ''a''), 1), (KStr (str ''b''), 1)]"]
  show ?thesis by blast
qed

section \<open>The most active author of a date\<close>

text \<open>
  C4.  For every pair (date, author) that \<open>q1_memory\<close> returns, the author was
  observed on that date and no author has more observations on that date.
\<close>

theorem top_author_has_highest_count:
  assumes "q1_memory f (Some ls) = Inr r" and "(d, a) \<in> set r"
  shows "0 < count_list (q1_keys f ls) (d, a)
     \<and> (\<forall>a'. count_list (q1_keys f ls) (d, a') \<le> count_list (q1_keys f ls) (d, a))"
proof -
  from assms(1) obtain st where l: "q1_loop f ls ([], []) = Inr st"
    and t: "top_users (snd st) (map fst (most_common 10 (fst st))) = Inr r"
    by (auto simp: q1_memory_def split: sum.splits)
  let ?ks = "authors_on d (q1_keys f ls)"
  from q1_loop_keys [OF l] have n: "nested_get (snd st) d = update ?ks []"
    by (simp add: nested_get_update nested_get_Nil)
  from top_users_Inr [OF t] assms(2)
  have ne: "most_common 1 (nested_get (snd st) d) \<noteq> []"
    and a: "a = fst (hd (most_common 1 (nested_get (snd st) d)))"
    by auto
  from ne have c: "update ?ks [] \<noteq> []" using most_common_Nil_iff [of 1 "nested_get (snd st) d"] n
    by simp
  note h = update_hd_count [OF c]
  from h(3) a n have "a \<in> set ?ks" by simp
  then have "count_list ?ks a \<noteq> 0" by (simp add: count_list_0_iff)
  then have "0 < count_list ?ks a" by simp
  moreover have "count_list ?ks a' \<le> count_list ?ks a" for a'
    using h(1) [of a'] h(2) a n by simp
  ultimately show ?thesis by (simp add: count_authors_on)
qed

theorem top_author_has_highest_count_witness:
  "q1_memory example_fromisoformat
      (Some [example_tweet ''2021-02-24T09:23:35+00:00'' ''b'',
             example_tweet ''2021-02-24T10:00:00Z'' ''a'',
             example_tweet ''2021-02-24T11:00:00Z'' ''a''])
     = Inr [((2021, 2, 24), KStr (str ''a''))]
   \<and> ((2021, 2, 24), KStr (str ''a'')) \<in> set [((2021::nat, 2::nat, 24::nat), KStr (str ''a''))]
   \<and> 0 < count_list
         (q1_keys example_fromisoformat
            [example_tweet ''2021-02-24T09:23:35+00:00'' ''b'',
             example_tweet ''2021-02-24T10:00:00Z'' ''a'',
             example_tweet ''2021-02-24T11:00:00Z'' ''a''])
         ((2021, 2, 24), KStr (str ''a''))
   \<and> (\<forall>a'. count_list
         (q1_keys example_fromisoformat
            [example_tweet ''2021-02-24T09:23:35+00:00'' ''b'',
             example_tweet ''2021-02-24T10:00:00Z'' ''a'',
             example_tweet ''2021-02-24T11:00:00Z'' ''a''])
         ((2021, 2, 24), a')
       \<le> count_list
         (q1_keys example_fromisoformat
            [example_tweet ''2021-02-24T09:23:35+00:00'' ''b'',
             example_tweet ''2021-02-24T10:00:00Z'' ''a'',
             example_tweet ''2021-02-24T11:00:00Z'' ''a''])
         ((2021, 2, 24), KStr (str ''a'')))"
proof -
  have h: "q1_memory example_fromisoformat
      (Some [example_tweet ''2021-02-24T09:23:35+00:00'' ''b'',
             example_tweet ''2021-02-24T10:00:00Z'' ''a'',
             example_tweet ''2021-02-24T11:00:00Z'' ''a''])
     = Inr [((2021, 2, 24), KStr (str ''a''))]"
    by (simp add: q1_memory_def example_tweet_def q1_line_def dict_get_def replace_Z_def
        try_except_def most_common_def nested_get_def)
  have m: "((2021, 2, 24), KStr (str ''a''))
      \<in> set [((2021::nat, 2::nat, 24::nat), KStr (str ''a''))]"
    by simp
  from h m top_author_has_highest_count [OF h m] show ?thesis by blast
qed

section \<open>Order of the result\<close>

text \<open>
  C1.  \<open>most_common\<close> returns its items by descending count, which orders the results of
  the streaming analyses.  The query of \<open>q1_time\<close> ends in \<open>ORDER BY date DESC\<close>: its
  rows come by descending date, not by descending tweet count.  On three tweets, two on
  2021-02-01 and one on 2021-02-02, it returns the date with one tweet ahead of the date
  with two, where \<open>q1_memory\<close> returns the busier date first.
\<close>

theorem q1_time_orders_by_date:
  "q1_time [(Some (2021::nat, 2::nat, 1::nat), Some (str ''a'')),
            (Some (2021, 2, 1), Some (str ''a'')),
            (Some (2021, 2, 2), Some (str ''b''))]
     = [((2021, 2, 2), Some (str ''b'')), ((2021, 2, 1), Some (str ''a''))]
   \<and> count_list (map fst [(Some (2021::nat, 2::nat, 1::nat), Some (str ''a'')),
                           (Some (2021, 2, 1), Some (str ''a'')),
                           (Some (2021, 2, 2), Some (str ''b''))]) (Some (2021, 2, 2)) = 1
   \<and> count_list (map fst [(Some (2021::nat, 2::nat, 1::nat), Some (str ''a'')),
                           (Some (2021, 2, 1), Some (str ''a'')),
                           (Some (2021, 2, 2), Some (str ''b''))]) (Some (2021, 2, 1)) = 2
   \<and> q1_memory example_fromisoformat
        (Some [example_tweet ''2021-02-01T10:00:00+00:00'' ''a'',
               example_tweet ''2021-02-01T11:00:00+00:00'' ''a'',
               example_tweet ''2021-02-02T10:00:00+00:00'' ''b''])
     = Inr [((2021, 2, 1), KStr (str ''a'')), ((2021, 2, 2), KStr (str ''b''))]"
  by (simp add: q1_time_def user_counts_def joined_def date_counts_def update_def
      row_number_def q1_memory_def example_tweet_def q1_line_def dict_get_def replace_Z_def
      try_except_def most_common_def nested_get_def)


section \<open>Ties\<close>

text \<open>
  C3.  In the result of each streaming analysis, of two keys with equal count the one
  listed first is the one whose first occurrence in the input comes first: for
  \<open>q1_memory\<close> the keys are the dates and the count is the date's number of counted
  tweets, for \<open>q2_memory\<close> and \<open>q3_memory\<close> the count is the one returned with the key.
\<close>

theorem ties_keep_first_seen_order:
  "(q1_memory f (Some ls1) = Inr r1 \<and> i1 < j1 \<and> j1 < length r1
      \<and> count_list (map fst (q1_keys f ls1)) (fst (r1 ! i1))
        = count_list (map fst (q1_keys f ls1)) (fst (r1 ! j1))
    \<longrightarrow> first_index (map fst (q1_keys f ls1)) (fst (r1 ! i1))
        < first_index (map fst (q1_keys f ls1)) (fst (r1 ! j1)))
   \<and> (q2_memory P (Some ls2) = Inr r2 \<and> i2 < j2 \<and> j2 < length r2
      \<and> snd (r2 ! i2) = snd (r2 ! j2)
    \<longrightarrow> first_index (q2_keys P ls2) (fst (r2 ! i2))
        < first_index (q2_keys P ls2) (fst (r2 ! j2)))
   \<and> (q3_memory (Some ls3) = Inr r3 \<and> i3 < j3 \<and> j3 < length r3
      \<and> snd (r3 ! i3) = snd (r3 ! j3)
    \<longrightarrow> first_index (q3_keys ls3) (fst (r3 ! i3))
        < first_index (q3_keys ls3) (fst (r3 ! j3)))"
proof (intro conjI impI; elim conjE)
  let ?ks = "map fst (q1_keys f ls1)"
  let ?m = "most_common 10 (update ?ks [])"
  assume r: "q1_memory f (Some ls1) = Inr r1" and ij: "i1 < j1" and j: "j1 < length r1"
    and tie: "count_list ?ks (fst (r1 ! i1)) = count_list ?ks (fst (r1 ! j1))"
  from r obtain st where l: "q1_loop f ls1 ([], []) = Inr st"
    and t: "top_users (snd st) (map fst (most_common 10 (fst st))) = Inr r1"
    by (auto simp: q1_memory_def split: sum.splits)
  from q1_loop_keys [OF l] have st: "fst st = update ?ks []" by simp
  from top_users_Inr [OF t] st have m: "map fst r1 = map fst ?m" by simp
  then have len: "length r1 = length ?m"
    using length_map [of fst r1] length_map [of fst ?m] by simp
  have nth: "fst (r1 ! k) = fst (?m ! k)" if "k < length r1" for k
    using that m len nth_map [of k r1 fst] nth_map [of k ?m fst] by simp
  from ij j have i: "i1 < length r1" by simp
  from j len have jm: "j1 < length ?m" by simp
  from i len have im: "i1 < length ?m" by simp
  from tie nth [OF i] nth [OF j] most_common_nth_count [OF im] most_common_nth_count [OF jm]
  have "snd (?m ! i1) = snd (?m ! j1)" by simp
  from most_common_update_ties [OF ij jm this] nth [OF i] nth [OF j]
  show "first_index ?ks (fst (r1 ! i1)) < first_index ?ks (fst (r1 ! j1))" by simp
next
  assume r: "q2_memory P (Some ls2) = Inr r2" and ij: "i2 < j2" and j: "j2 < length r2"
    and tie: "snd (r2 ! i2) = snd (r2 ! j2)"
  from r obtain c where l: "q2_loop P ls2 [] = Inr c" and m: "r2 = most_common 10 c"
    by (auto simp: q2_memory_def split: sum.splits)
  from q2_loop_keys [OF l] m have "r2 = most_common 10 (update (q2_keys P ls2) [])" by simp
  with most_common_update_ties [of i2 j2 10 "q2_keys P ls2"] ij j tie
  show "first_index (q2_keys P ls2) (fst (r2 ! i2)) < first_index (q2_keys P ls2) (fst (r2 ! j2))"
    by simp
next
  assume r: "q3_memory (Some ls3) = Inr r3" and ij: "i3 < j3" and j: "j3 < length r3"
    and tie: "snd (r3 ! i3) = snd (r3 ! j3)"
  from r obtain c where l: "q3_loop ls3 [] = Inr c" and m: "r3 = most_common 10 c"
    by (auto simp: q3_memory_def split: sum.splits)
  from q3_loop_keys [OF l] m have "r3 = most_common 10 (update (q3_keys ls3) [])" by simp
  with most_common_update_ties [of i3 j3 10 "q3_keys ls3"] ij j tie
  show "first_index (q3_keys ls3) (fst (r3 ! i3)) < first_index (q3_keys ls3) (fst (r3 ! j3))"
    by simp
qed

theorem ties_keep_first_seen_order_witness:
  "(q1_memory example_fromisoformat
       (Some [example_tweet ''2021-02-02T10:00:00Z'' ''a'',
              example_tweet ''2021-02-01T10:00:00Z'' ''b''])
      = Inr [((2021, 2, 2), KStr (str ''a'')), ((2021, 2, 1), KStr (str ''b''))]
     \<and> (0::nat) < 1
     \<and> 1 < length [((2021::nat, 2::nat, 2::nat), KStr (str ''a'')), ((2021, 2, 1), KStr (str ''b''))]
     \<and> count_list (map fst (q1_keys example_fromisoformat
          [example_tweet ''2021-02-02T10:00:00Z'' ''a'',
           example_tweet ''2021-02-01T10:00:00Z'' ''b''])) (2021, 2, 2)
       = count_list (map fst (q1_keys example_fromisoformat
          [example_tweet ''2021-02-02T10:00:00Z'' ''a'',
           example_tweet ''2021-02-01T10:00:00Z'' ''b''])) (2021, 2, 1)
     \<and> first_index (map fst (q1_keys example_fromisoformat
          [example_tweet ''2021-02-02T10:00:00Z'' ''a'',
           example_tweet ''2021-02-01T10:00:00Z'' ''b''])) (2021, 2, 2)
       < first_index (map fst (q1_keys example_fromisoformat
          [example_tweet ''2021-02-02T10:00:00Z'' ''a'',
           example_tweet ''2021-02-01T10:00:00Z'' ''b''])) (2021, 2, 1))
   \<and> (q2_memory (\<lambda>c. c = 0x1F64F \<or> c = 0x1F60A) (Some [example_content [0x1F64F, 0x1F60A]])
      = Inr [([0x1F64F], 1), ([0x1F60A], 1)]
     \<and> first_index (q2_keys (\<lambda>c. c = 0x1F64F \<or> c = 0x1F60A)
          [example_content [0x1F64F, 0x1F60A]]) [0x1F64F]
       < first_index (q2_keys (\<lambda>c. c = 0x1F64F \<or> c = 0x1F60A)
          [example_content [0x1F64F, 0x1F60A]]) [0x1F60A])
   \<and> (q3_memory (Some [example_mentions [''b'', ''a'']])
      = Inr [(KStr (str ''b''), 1), (KStr (str ''a''), 1)]
     \<and> first_index (q3_keys [example_mentions [''b'', ''a'']]) (KStr (str ''b''))
       < first_index (q3_keys [example_mentions [''b'', ''a'']]) (KStr (str ''a'')))"
proof -
  have h1: "q1_memory example_fromisoformat
       (Some [example_tweet ''2021-02-02T10:00:00Z'' ''a'',
              example_tweet ''2021-02-01T10:00:00Z'' ''b''])
      = Inr [((2021, 2, 2), KStr (str ''a'')), ((2021, 2, 1), KStr (str ''b''))]"
    by (simp add: q1_memory_def example_tweet_def q1_line_def dict_get_def replace_Z_def
        try_except_def most_common_def nested_get_def)
  have k1: "map fst (q1_keys example_fromisoformat
          [example_tweet ''2021-02-02T10:00:00Z'' ''a'',
           example_tweet ''2021-02-01T10:00:00Z'' ''b'']) = [(2021, 2, 2), (2021, 2, 1)]"
    by (simp add: q1_keys_def map_filter_simps q1_line_key_def example_tweet_def dict_get_def
        replace_Z_def)
  have h2: "q2_memory (\<lambda>c. c = 0x1F64F \<or> c = 0x1F60A) (Some [example_content [0x1F64F, 0x1F60A]])
      = Inr [([0x1F64F], 1), ([0x1F60A], 1)]"
    by (simp add: q2_memory_def example_content_def q2_line_def dict_get_def py_or_def
        try_except_def findall_def update_def most_common_def)
  have h3: "q3_memory (Some [example_mentions [''b'', ''a'']])
      = Inr [(KStr (str ''b''), 1), (KStr (str ''a''), 1)]"
    by (simp add: q3_memory_def example_mentions_def q3_line_def dict_get_def try_except_def
        most_common_def)
  from h1 k1 h2 h3
    ties_keep_first_seen_order
      [of example_fromisoformat
          "[example_tweet ''2021-02-02T10:00:00Z'' ''a'',
            example_tweet ''2021-02-01T10:00:00Z'' ''b'']"
          "[((2021, 2, 2), KStr (str ''a'')), ((2021, 2, 1), KStr (str ''b''))]" 0 1
          "\<lambda>c. c = 0x1F64F \<or> c = 0x1F60A" "[example_content [0x1F64F, 0x1F60A]]"
          "[([0x1F64F], 1), ([0x1F60A], 1)]" 0 1
          "[example_mentions [''b'', ''a'']]"
          "[(KStr (str ''b''), 1), (KStr (str ''a''), 1)]" 0 1]
  show ?thesis by simp
qed

section \<open>One more observation\<close>

text \<open>
  C9, as amended.  Appending one line whose only contribution is one observation of a
  key \<open>k\<close> never moves \<open>k\<close> down in the returned list, and a key that was in the
  returned list and no longer is has a count that is at most the new count of \<open>k\<close>
  (equal counts suffice when \<open>k\<close> was first seen earlier).
\<close>

theorem one_more_observation:
  "(q1_memory f (Some ls1) = Inr r1 \<and> q1_memory f (Some (ls1 @ [l1])) = Inr r1'
      \<and> q1_line_key f l1 = Some (k1, u) \<longrightarrow>
      (k1 \<in> set (map fst r1) \<longrightarrow>
         k1 \<in> set (map fst r1')
         \<and> first_index (map fst r1') k1 \<le> first_index (map fst r1) k1)
      \<and> (\<forall>t. t \<in> set (map fst r1) \<and> t \<notin> set (map fst r1') \<longrightarrow>
            count_list (map fst (q1_keys f ls1)) t
            \<le> count_list (map fst (q1_keys f (ls1 @ [l1]))) k1))
   \<and> (q2_memory P (Some ls2) = Inr r2 \<and> q2_memory P (Some (ls2 @ [l2])) = Inr r2'
      \<and> q2_line_keys P l2 = [k2] \<longrightarrow>
      (k2 \<in> set (map fst r2) \<longrightarrow>
         k2 \<in> set (map fst r2')
         \<and> first_index (map fst r2') k2 \<le> first_index (map fst r2) k2)
      \<and> (\<forall>t. t \<in> set (map fst r2) \<and> t \<notin> set (map fst r2') \<longrightarrow>
            count_list (q2_keys P ls2) t \<le> count_list (q2_keys P (ls2 @ [l2])) k2))
   \<and> (q3_memory (Some ls3) = Inr r3 \<and> q3_memory (Some (ls3 @ [l3])) = Inr r3'
      \<and> q3_line_keys l3 = [k3] \<longrightarrow>
      (k3 \<in> set (map fst r3) \<longrightarrow>
         k3 \<in> set (map fst r3')
         \<and> first_index (map fst r3') k3 \<le> first_index (map fst r3) k3)
      \<and> (\<forall>t. t \<in> set (map fst r3) \<and> t \<notin> set (map fst r3') \<longrightarrow>
            count_list (q3_keys ls3) t \<le> count_list (q3_keys (ls3 @ [l3])) k3))"
proof (intro conjI impI allI; elim conjE)
  assume "q1_memory f (Some ls1) = Inr r1" "q1_memory f (Some (ls1 @ [l1])) = Inr r1'"
    "q1_line_key f l1 = Some (k1, u)" "k1 \<in> set (map fst r1)"
  then show "k1 \<in> set (map fst r1')"
    and "first_index (map fst r1') k1 \<le> first_index (map fst r1) k1"
    using q1_memory_keys [of f ls1 r1] q1_memory_keys [of f "ls1 @ [l1]" r1']
      top_keys_after_observation [of k1 10 "map fst (q1_keys f ls1)"]
    by (simp_all add: q1_keys_snoc)
next
  fix t
  assume "q1_memory f (Some ls1) = Inr r1" "q1_memory f (Some (ls1 @ [l1])) = Inr r1'"
    "q1_line_key f l1 = Some (k1, u)" "t \<in> set (map fst r1)" "t \<notin> set (map fst r1')"
  then show "count_list (map fst (q1_keys f ls1)) t
      \<le> count_list (map fst (q1_keys f (ls1 @ [l1]))) k1"
    using q1_memory_keys [of f ls1 r1] q1_memory_keys [of f "ls1 @ [l1]" r1']
      top_keys_after_observation [of k1 10 "map fst (q1_keys f ls1)" t]
    by (simp add: q1_keys_snoc)
next
  assume "q2_memory P (Some ls2) = Inr r2" "q2_memory P (Some (ls2 @ [l2])) = Inr r2'"
    "q2_line_keys P l2 = [k2]" "k2 \<in> set (map fst r2)"
  then show "k2 \<in> set (map fst r2')"
    and "first_index (map fst r2') k2 \<le> first_index (map fst r2) k2"
    using q2_memory_keys [of P ls2 r2] q2_memory_keys [of P "ls2 @ [l2]" r2']
      top_keys_after_observation [of k2 10 "q2_keys P ls2"]
    by (simp_all add: q2_keys_snoc)
next
  fix t
  assume "q2_memory P (Some ls2) = Inr r2" "q2_memory P (Some (ls2 @ [l2])) = Inr r2'"
    "q2_line_keys P l2 = [k2]" "t \<in> set (map fst r2)" "t \<notin> set (map fst r2')"
  then show "count_list (q2_keys P ls2) t \<le> count_list (q2_keys P (ls2 @ [l2])) k2"
    using q2_memory_keys [of P ls2 r2] q2_memory_keys [of P "ls2 @ [l2]" r2']
      top_keys_after_observation [of k2 10 "q2_keys P ls2" t]
    by (simp add: q2_keys_snoc)
next
  assume "q3_memory (Some ls3) = Inr r3" "q3_memory (Some (ls3 @ [l3])) = Inr r3'"
    "q3_line_keys l3 = [k3]" "k3 \<in> set (map fst r3)"
  then show "k3 \<in> set (map fst r3')"
    and "first_index (map fst r3') k3 \<le> first_index (map fst r3) k3"
    using q3_memory_keys [of ls3 r3] q3_memory_keys [of "ls3 @ [l3]" r3']
      top_keys_after_observation [of k3 10 "q3_keys ls3"]
    by (simp_all add: q3_keys_snoc)
next
  fix t
  assume "q3_memory (Some ls3) = Inr r3" "q3_memory (Some (ls3 @ [l3])) = Inr r3'"
    "q3_line_keys l3 = [k3]" "t \<in> set (map fst r3)" "t \<notin> set (map fst r3')"
  then show "count_list (q3_keys ls3) t \<le> count_list (q3_keys (ls3 @ [l3])) k3"
    using q3_memory_keys [of ls3 r3] q3_memory_keys [of "ls3 @ [l3]" r3']
      top_keys_after_observation [of k3 10 "q3_keys ls3" t]
    by (simp add: q3_keys_snoc)
qed

theorem one_more_observation_witness:
  "(q1_memory example_fromisoformat
       (Some [example_tweet ''2021-02-01T10:00:00Z'' ''a'',
              example_tweet ''2021-02-02T10:00:00Z'' ''b''])
      = Inr [((2021, 2, 1), KStr (str ''a'')), ((2021, 2, 2), KStr (str ''b''))]
     \<and> q1_memory example_fromisoformat
       (Some ([example_tweet ''2021-02-01T10:00:00Z'' ''a'',
               example_tweet ''2021-02-02T10:00:00Z'' ''b'']
              @ [example_tweet ''2021-02-02T11:00:00Z'' ''b'']))
      = Inr [((2021, 2, 2), KStr (str ''b'')), ((2021, 2, 1), KStr (str ''a''))]
     \<and> q1_line_key example_fromisoformat (example_tweet ''2021-02-02T11:00:00Z'' ''b'')
      = Some ((2021, 2, 2), KStr (str ''b''))
     \<and> (2021, 2, 2) \<in> set (map fst [((2021::nat, 2::nat, 1::nat), KStr (str ''a'')),
                                         ((2021, 2, 2), KStr (str ''b''))])
     \<and> first_index (map fst [((2021::nat, 2::nat, 2::nat), KStr (str ''b'')),
                               ((2021, 2, 1), KStr (str ''a''))]) (2021, 2, 2)
       \<le> first_index (map fst [((2021::nat, 2::nat, 1::nat), KStr (str ''a'')),
                                 ((2021, 2, 2), KStr (str ''b''))]) (2021, 2, 2))
   \<and> (q2_memory (\<lambda>c. c = 0x1F64F \<or> c = 0x1F60A) (Some [example_content [0x1F64F, 0x1F60A]])
      = Inr [([0x1F64F], 1), ([0x1F60A], 1)]
     \<and> q2_memory (\<lambda>c. c = 0x1F64F \<or> c = 0x1F60A)
         (Some ([example_content [0x1F64F, 0x1F60A]] @ [example_content [0x1F60A]]))
      = Inr [([0x1F60A], 2), ([0x1F64F], 1)]
     \<and> q2_line_keys (\<lambda>c. c = 0x1F64F \<or> c = 0x1F60A) (example_content [0x1F60A]) = [[0x1F60A]]
     \<and> [0x1F60A] \<in> set (map fst [([0x1F64F::nat], 1::nat), ([0x1F60A], 1)])
     \<and> first_index (map fst [([0x1F60A::nat], 2::nat), ([0x1F64F], 1)]) [0x1F60A]
       \<le> first_index (map fst [([0x1F64F::nat], 1::nat), ([0x1F60A], 1)]) [0x1F60A])
   \<and> (q3_memory (Some example_eleven_users)
      = Inr [(KStr (str ''a''), 2), (KStr (str ''b''), 2), (KStr (str ''c''), 2),
            (KStr (str ''d''), 2), (KStr (str ''e''), 2), (KStr (str ''f''), 2),
            (KStr (str ''g''), 2), (KStr (str ''h''), 2), (KStr (str ''i''), 2),
            (KStr (str ''t''), 2)]
     \<and> q3_memory (Some (example_eleven_users @ [example_mentions [''k'']]))
      = Inr [(KStr (str ''k''), 2), (KStr (str ''a''), 2), (KStr (str ''b''), 2), (KStr (str ''c''), 2),
            (KStr (str ''d''), 2), (KStr (str ''e''), 2), (KStr (str ''f''), 2),
            (KStr (str ''g''), 2), (KStr (str ''h''), 2), (KStr (str ''i''), 2)]
     \<and> q3_line_keys (example_mentions [''k'']) = [KStr (str ''k'')]
     \<and> KStr (str ''t'') \<in> set (map fst [(KStr (str ''a''), 2::nat), (KStr (str ''b''), 2), (KStr (str ''c''), 2),
            (KStr (str ''d''), 2), (KStr (str ''e''), 2), (KStr (str ''f''), 2),
            (KStr (str ''g''), 2), (KStr (str ''h''), 2), (KStr (str ''i''), 2),
            (KStr (str ''t''), 2)])
     \<and> KStr (str ''t'') \<notin> set (map fst [(KStr (str ''k''), 2::nat), (KStr (str ''a''), 2), (KStr (str ''b''), 2), (KStr (str ''c''), 2),
            (KStr (str ''d''), 2), (KStr (str ''e''), 2), (KStr (str ''f''), 2),
            (KStr (str ''g''), 2), (KStr (str ''h''), 2), (KStr (str ''i''), 2)])
     \<and> count_list (q3_keys example_eleven_users) (KStr (str ''t''))
       \<le> count_list (q3_keys (example_eleven_users @ [example_mentions [''k'']]))
            (KStr (str ''k'')))"
proof -
  have a1: "q1_memory example_fromisoformat
       (Some [example_tweet ''2021-02-01T10:00:00Z'' ''a'',
              example_tweet ''2021-02-02T10:00:00Z'' ''b''])
      = Inr [((2021, 2, 1), KStr (str ''a'')), ((2021, 2, 2), KStr (str ''b''))]"
    by (simp add: q1_memory_def example_tweet_def q1_line_def dict_get_def replace_Z_def
        try_except_def most_common_def nested_get_def)
  have a2: "q1_memory example_fromisoformat
       (Some ([example_tweet ''2021-02-01T10:00:00Z'' ''a'',
               example_tweet ''2021-02-02T10:00:00Z'' ''b'']
              @ [example_tweet ''2021-02-02T11:00:00Z'' ''b'']))
      = Inr [((2021, 2, 2), KStr (str ''b'')), ((2021, 2, 1), KStr (str ''a''))]"
    by (simp add: q1_memory_def example_tweet_def q1_line_def dict_get_def replace_Z_def
        try_except_def most_common_def nested_get_def)
  have a3: "q1_line_key example_fromisoformat (example_tweet ''2021-02-02T11:00:00Z'' ''b'')
      = Some ((2021, 2, 2), KStr (str ''b''))"
    by (simp add: q1_line_key_def example_tweet_def dict_get_def replace_Z_def)
  have b1: "q2_memory (\<lambda>c. c = 0x1F64F \<or> c = 0x1F60A) (Some [example_content [0x1F64F, 0x1F60A]])
      = Inr [([0x1F64F], 1), ([0x1F60A], 1)]"
    by (simp add: q2_memory_def example_content_def q2_line_def dict_get_def py_or_def
        try_except_def findall_def update_def most_common_def)
  have b2: "q2_memory (\<lambda>c. c = 0x1F64F \<or> c = 0x1F60A)
         (Some ([example_content [0x1F64F, 0x1F60A]] @ [example_content [0x1F60A]]))
      = Inr [([0x1F60A], 2), ([0x1F64F], 1)]"
    by (simp add: q2_memory_def example_content_def q2_line_def dict_get_def py_or_def
        try_except_def findall_def update_def most_common_def)
  have b3: "q2_line_keys (\<lambda>c. c = 0x1F64F \<or> c = 0x1F60A) (example_content [0x1F60A])
      = [[0x1F60A]]"
    by (simp add: q2_line_keys_def example_content_def dict_get_def py_or_def findall_def)
  note c1 = eleven_before and c2 = eleven_after and c3 = eleven_counts(3)
  from a1 a2 a3 b1 b2 b3 c1 c2 c3
    one_more_observation
      [of example_fromisoformat
          "[example_tweet ''2021-02-01T10:00:00Z'' ''a'',
            example_tweet ''2021-02-02T10:00:00Z'' ''b'']"
          "[((2021, 2, 1), KStr (str ''a'')), ((2021, 2, 2), KStr (str ''b''))]"
          "example_tweet ''2021-02-02T11:00:00Z'' ''b''"
          "[((2021, 2, 2), KStr (str ''b'')), ((2021, 2, 1), KStr (str ''a''))]"
          "(2021, 2, 2)" "KStr (str ''b'')"
          "\<lambda>c. c = 0x1F64F \<or> c = 0x1F60A" "[example_content [0x1F64F, 0x1F60A]]"
          "[([0x1F64F], 1), ([0x1F60A], 1)]" "example_content [0x1F60A]"
          "[([0x1F60A], 2), ([0x1F64F], 1)]" "[0x1F60A]"
          example_eleven_users
          "[(KStr (str ''a''), 2), (KStr (str ''b''), 2), (KStr (str ''c''), 2),
            (KStr (str ''d''), 2), (KStr (str ''e''), 2), (KStr (str ''f''), 2),
            (KStr (str ''g''), 2), (KStr (str ''h''), 2), (KStr (str ''i''), 2),
            (KStr (str ''t''), 2)]"
          "example_mentions [''k'']"
          "[(KStr (str ''k''), 2), (KStr (str ''a''), 2), (KStr (str ''b''), 2), (KStr (str ''c''), 2),
            (KStr (str ''d''), 2), (KStr (str ''e''), 2), (KStr (str ''f''), 2),
            (KStr (str ''g''), 2), (KStr (str ''h''), 2), (KStr (str ''i''), 2)]"
          "KStr (str ''k'')"]
  show ?thesis by simp
qed

text \<open>
  The claim as stated fails twice.  A line that mentions \<open>k\<close> once and \<open>j\<close> twice
  contributes to the count of \<open>k\<close> and moves \<open>k\<close> from the first place to the second.
  With the eleven users, one more mention of \<open>k\<close> brings \<open>k\<close> to the count 2 of the
  tenth-ranked \<open>t\<close>, not above it, and \<open>t\<close> leaves the list because \<open>k\<close> was seen first.
\<close>

theorem rank_drops_and_tie_displaces:
  "q3_memory (Some [example_mentions [''k''], example_mentions [''j'']])
     = Inr [(KStr (str ''k''), 1), (KStr (str ''j''), 1)]
   \<and> KStr (str ''k'') \<in> set (q3_line_keys (example_mentions [''k'', ''j'', ''j'']))
   \<and> q3_memory (Some ([example_mentions [''k''], example_mentions [''j'']]
                      @ [example_mentions [''k'', ''j'', ''j'']]))
     = Inr [(KStr (str ''j''), 3), (KStr (str ''k''), 2)]
   \<and> first_index (map fst [(KStr (str ''k''), 1::nat), (KStr (str ''j''), 1)]) (KStr (str ''k''))
     < first_index (map fst [(KStr (str ''j''), 3::nat), (KStr (str ''k''), 2)]) (KStr (str ''k''))
   \<and> q3_memory (Some example_eleven_users)
     = Inr [(KStr (str ''a''), 2), (KStr (str ''b''), 2), (KStr (str ''c''), 2),
            (KStr (str ''d''), 2), (KStr (str ''e''), 2), (KStr (str ''f''), 2),
            (KStr (str ''g''), 2), (KStr (str ''h''), 2), (KStr (str ''i''), 2),
            (KStr (str ''t''), 2)]
   \<and> q3_line_keys (example_mentions [''k'']) = [KStr (str ''k'')]
   \<and> q3_memory (Some (example_eleven_users @ [example_mentions [''k'']]))
     = Inr [(KStr (str ''k''), 2), (KStr (str ''a''), 2), (KStr (str ''b''), 2), (KStr (str ''c''), 2),
            (KStr (str ''d''), 2), (KStr (str ''e''), 2), (KStr (str ''f''), 2),
            (KStr (str ''g''), 2), (KStr (str ''h''), 2), (KStr (str ''i''), 2)]
   \<and> KStr (str ''t'') \<notin> set (map fst [(KStr (str ''k''), 2::nat), (KStr (str ''a''), 2), (KStr (str ''b''), 2), (KStr (str ''c''), 2),
            (KStr (str ''d''), 2), (KStr (str ''e''), 2), (KStr (str ''f''), 2),
            (KStr (str ''g''), 2), (KStr (str ''h''), 2), (KStr (str ''i''), 2)])
   \<and> \<not> count_list (q3_keys example_eleven_users) (KStr (str ''t''))
       < count_list (q3_keys (example_eleven_users @ [example_mentions [''k'']]))
           (KStr (str ''k''))"
  using two_before two_after eleven_before eleven_after eleven_counts by simp

end
